theory Spec2Isabelle
  imports Main
begin

section \<open>Python text and integer conversions\<close>

text \<open>
  The script converts between text and integers with Python's \<^verbatim>\<open>int(...)\<close> and
  \<^verbatim>\<open>str(...)\<close>, and reads the marker file with \<^verbatim>\<open>readline()\<close>. A \<^typ>\<open>char\<close> stands
  for a code point below 256. Python integers are unbounded, hence \<^typ>\<open>int\<close>.
  The interpreter's optional cap on the number of digits of a conversion is not part of
  the model.
\<close>

definition is_digit :: "char \<Rightarrow> bool" where
  "is_digit c = (48 \<le> (of_char c :: nat) \<and> (of_char c :: nat) \<le> 57)"

definition digit_val :: "char \<Rightarrow> nat" where
  "digit_val c = of_char c - 48"

definition digit_char :: "nat \<Rightarrow> char" where
  "digit_char d = char_of (48 + d)"

definition is_space :: "char \<Rightarrow> bool" where
  \<comment> \<open>the code points below 256 that \<^verbatim>\<open>int(...)\<close> strips around a number\<close>
  "is_space c = ((of_char c :: nat) \<in> {9, 10, 11, 12, 13, 32, 133, 160})"

definition strip :: "string \<Rightarrow> string" where
  "strip s = rev (dropWhile is_space (rev (dropWhile is_space s)))"

fun digits_tail :: "nat \<Rightarrow> string \<Rightarrow> nat option" where
  \<comment> \<open>after a digit: more digits, each optionally preceded by one underscore\<close>
  "digits_tail acc [] = Some acc"
| "digits_tail acc (c # cs) =
     (if is_digit c then digits_tail (10 * acc + digit_val c) cs
      else if c = CHR ''_'' then
        (case cs of
           [] \<Rightarrow> None
         | d # ds \<Rightarrow> if is_digit d then digits_tail (10 * acc + digit_val d) ds else None)
      else None)"

definition digits_val :: "string \<Rightarrow> nat option" where
  "digits_val s =
     (case s of
        [] \<Rightarrow> None
      | c # cs \<Rightarrow> if is_digit c then digits_tail (digit_val c) cs else None)"

definition py_int :: "string \<Rightarrow> int option" where
  \<comment> \<open>\<^verbatim>\<open>int(s)\<close> on a string; \<open>None\<close> is ValueError\<close>
  "py_int s =
     (case strip s of
        [] \<Rightarrow> None
      | c # cs \<Rightarrow>
          if c = CHR ''-'' then map_option (\<lambda>n. - int n) (digits_val cs)
          else if c = CHR ''+'' then map_option int (digits_val cs)
          else map_option int (digits_val (c # cs)))"

function digits_of :: "nat \<Rightarrow> string" where
  "digits_of n =
     (if n < 10 then [digit_char n] else digits_of (n div 10) @ [digit_char (n mod 10)])"
  by pat_completeness auto
termination
  by (relation "measure (\<lambda>n. n)") auto

declare digits_of.simps [simp del]

definition py_str :: "int \<Rightarrow> string" where
  \<comment> \<open>\<^verbatim>\<open>str(n)\<close> on an integer\<close>
  "py_str n = (if n < 0 then CHR ''-'' # digits_of (nat (- n)) else digits_of (nat n))"

fun readline :: "string \<Rightarrow> string" where
  \<comment> \<open>text mode with universal newlines: the first line, its terminator read as a line feed\<close>
  "readline [] = []"
| "readline (c # cs) =
     (if c = CHR 0x0A \<or> c = CHR 0x0D then [CHR 0x0A] else c # readline cs)"


section \<open>Errors, responses and the world\<close>

text \<open>
  Every exception the script can raise is a value. \<open>TransportError\<close> stands for the
  request errors of the HTTP library (time-outs, connection failures) and
  \<open>HTTPStatusError\<close> for the error raised by \<^verbatim>\<open>raise_for_status\<close>; both are the HTTP
  library's \<^verbatim>\<open>HTTPError\<close>, which is what the retry decorator retries on.
\<close>

datatype error =
    TransportError
  | HTTPStatusError int
  | KeyError
  | TypeError
  | ValueError
  | PermissionError
  | RecursionError

fun is_HTTPError :: "error \<Rightarrow> bool" where
  "is_HTTPError TransportError = True"
| "is_HTTPError (HTTPStatusError _) = True"
| "is_HTTPError _ = False"

datatype jval = JNull | JBool bool | JInt int | JStr string

type_synonym header_map = "(string \<times> string) list"

text \<open>
  A response as the script uses it: the status code, the headers (keys in lower case, as
  the HTTP library looks them up), the parsed link relations (each a dictionary of
  attributes), the decoded body, the printed elapsed time, and the body decoded as JSON
  (\<open>None\<close> when it is not a JSON document). The groups listing is an array of objects
  with scalar fields.
\<close>

record response =
  status_code :: int
  headers :: header_map
  links :: "(string \<times> (string \<times> string) list) list"
  resp_text :: string
  elapsed :: string
  json :: "(string \<times> jval) list list option"

datatype event =
    Get string header_map
  | Read string
  | Write string string
  | LogInfo string
  | LogError string

text \<open>
  The world the script runs in. \<open>server w k u h\<close> is what the \<open>k\<close>-th GET of the run
  receives when it asks for \<open>u\<close> with headers \<open>h\<close> (\<open>None\<close>: no response arrives);
  \<open>requests\<close> counts the GETs sent so far; \<open>now\<close> is the clock, in milliseconds;
  \<open>took w k\<close> is how long the \<open>k\<close>-th GET takes until its response or its failure;
  \<open>pause w k\<close> is how long the retry decorator sleeps when it retries after \<open>k\<close> GETs
  (the wait is jittered, so the world scripts it); \<open>files\<close> is the file system;
  \<open>locked\<close> holds the paths that cannot be opened for writing; \<open>trace\<close> records every
  effect in order.
\<close>

record world =
  server :: "nat \<Rightarrow> string \<Rightarrow> header_map \<Rightarrow> response option"
  requests :: nat
  now :: nat
  took :: "nat \<Rightarrow> nat"
  pause :: "nat \<Rightarrow> nat"
  files :: "string \<rightharpoonup> string"
  locked :: "string \<Rightarrow> bool"
  trace :: "event list"

definition emit :: "event \<Rightarrow> world \<Rightarrow> world" where
  "emit e w = w\<lparr>trace := trace w @ [e]\<rparr>"

section \<open>HTTP Fetcher\<close>

definition client_get ::
  "world \<Rightarrow> string option \<Rightarrow> header_map \<Rightarrow> (error + response) \<times> world" where
  \<comment> \<open>\<^verbatim>\<open>client.get(url=url, headers=headers)\<close>; a URL that is \<^verbatim>\<open>None\<close> is rejected
      before anything is sent\<close>
  "client_get w url hdrs =
     (case url of
        None \<Rightarrow> (Inl TypeError, w)
      | Some u \<Rightarrow>
          (case server w (requests w) u hdrs of
             None \<Rightarrow> Inl TransportError
           | Some r \<Rightarrow> Inr r,
           emit (Get u hdrs)
             (w\<lparr>requests := Suc (requests w), now := now w + took w (requests w)\<rparr>)))"

definition raise_for_status :: "response \<Rightarrow> error + response" where
  \<comment> \<open>the HTTP library raises for every status outside 200..299\<close>
  "raise_for_status r =
     (if 200 \<le> status_code r \<and> status_code r \<le> 299 then Inr r
      else Inl (HTTPStatusError (status_code r)))"

definition fmt_url :: "string option \<Rightarrow> string" where
  \<comment> \<open>\<^verbatim>\<open>f"{url}"\<close>\<close>
  "fmt_url url = (case url of None \<Rightarrow> ''None'' | Some u \<Rightarrow> u)"

definition fetch_url_body ::
  "string option \<Rightarrow> header_map \<Rightarrow> world \<Rightarrow> (error + response) \<times> world" where
  \<comment> \<open>the undecorated body of \<^verbatim>\<open>fetch_url\<close>: one attempt\<close>
  "fetch_url_body url hdrs w =
     (case client_get w url hdrs of
        (Inl e, w1) \<Rightarrow> (Inl e, w1)
      | (Inr response, w1) \<Rightarrow>
          (case raise_for_status response of
             Inl e \<Rightarrow> (Inl e, w1)
           | Inr _ \<Rightarrow>
               (Inr response,
                emit (LogInfo (fmt_url url @ '' returned ''
                        @ py_str (status_code response) @ '' after '' @ elapsed response)) w1)))"

definition backoff :: "world \<Rightarrow> world" where
  \<comment> \<open>the sleep of the retry decorator before its next attempt\<close>
  "backoff w = w\<lparr>now := now w + pause w (requests w)\<rparr>"

fun stamina_retry ::
  "(error \<Rightarrow> bool) \<Rightarrow> nat \<Rightarrow> nat \<Rightarrow> nat \<Rightarrow> (world \<Rightarrow> (error + 'a) \<times> world) \<Rightarrow> world
     \<Rightarrow> (error + 'a) \<times> world" where
  \<comment> \<open>\<^verbatim>\<open>@stamina.retry(on=..., attempts=n, timeout=t)\<close>, started at time \<open>start\<close>: after
      a failed attempt whose error is one of \<open>on\<close> the decorator stops, and re-raises that
      error, when \<open>n\<close> attempts were made or \<open>t\<close> has passed since \<open>start\<close>; otherwise it
      sleeps and runs the body again.\<close>
  "stamina_retry on (Suc (Suc n)) timeout start f w =
     (case f w of
        (Inl e, w1) \<Rightarrow>
          if on e \<and> now w1 < start + timeout
          then stamina_retry on (Suc n) timeout start f (backoff w1)
          else (Inl e, w1)
      | (Inr x, w1) \<Rightarrow> (Inr x, w1))"
| "stamina_retry on n timeout start f w = f w"

definition fetch_url ::
  "world \<Rightarrow> string option \<Rightarrow> header_map \<Rightarrow> (error + response) \<times> world" where
  \<comment> \<open>\<^verbatim>\<open>@stamina.retry(on=httpx.HTTPError, attempts=3)\<close>; the decorator's \<^verbatim>\<open>timeout\<close> is
      left at its default of 45 seconds\<close>
  "fetch_url w url hdrs =
     stamina_retry is_HTTPError 3 45000 (now w) (fetch_url_body url hdrs) w"

section \<open>Paginator\<close>

text \<open>
  The recursion of \<^verbatim>\<open>follow_and_extract\<close> is as deep as the remote chain of pages is
  long. The interpreter bounds the depth of nested calls and raises RecursionError
  beyond it: \<open>depth\<close> is the number of nested calls still allowed. The \<^verbatim>\<open>try\<close> block
  covers the recursive call, so a KeyError coming out of it is caught as well.
\<close>

fun follow_and_extract ::
  "nat \<Rightarrow> world \<Rightarrow> string option \<Rightarrow> header_map \<Rightarrow> (error + string) \<times> world" where
  "follow_and_extract 0 w url hdrs = (Inl RecursionError, w)"
| "follow_and_extract (Suc depth) w url hdrs =
     (case fetch_url w url hdrs of
        (Inl e, w1) \<Rightarrow> (Inl e, w1)
      | (Inr request, w1) \<Rightarrow>
          (case map_of (links request) ''next'' of
             None \<Rightarrow> (Inr (resp_text request), w1)
           | Some link \<Rightarrow>
               (case follow_and_extract depth w1 (map_of link ''url'') hdrs of
                  (Inl e, w2) \<Rightarrow>
                    if e = KeyError then (Inr (resp_text request), w2) else (Inl e, w2)
                | (Inr rest, w2) \<Rightarrow> (Inr (resp_text request @ rest), w2))))"

section \<open>Version Cache and Sync Orchestrator\<close>

definition content_path :: "string \<Rightarrow> string" where
  "content_path file_name = ''bibliography/'' @ file_name"

definition marker_path :: "string \<Rightarrow> string" where
  "marker_path file_name = ''bibliography/'' @ file_name @ ''-last-modified-version''"

definition read_cached_version :: "world \<Rightarrow> string \<Rightarrow> int \<times> world" where
  \<comment> \<open>the \<^verbatim>\<open>try\<close> block of \<^verbatim>\<open>download_and_write_bib\<close>: a missing file
      (FileNotFoundError) and a first line that is no integer (ValueError) both give 0\<close>
  "read_cached_version w file_name =
     (let w1 = emit (Read (marker_path file_name)) w in
      case files w (marker_path file_name) of
        None \<Rightarrow> (0, w1)
      | Some c \<Rightarrow>
          (case py_int (readline c) of
             None \<Rightarrow> (0, w1)
           | Some cached_version \<Rightarrow>
               (cached_version,
                emit (LogInfo (''last-modified-version is '' @ py_str cached_version)) w1)))"

definition get_latest_version :: "response \<Rightarrow> error + int" where
  \<comment> \<open>\<^verbatim>\<open>int(headers.get("last-modified-version"))\<close>: \<^verbatim>\<open>int(None)\<close> is a TypeError\<close>
  "get_latest_version r =
     (case map_of (headers r) ''last-modified-version'' of
        None \<Rightarrow> Inl TypeError
      | Some s \<Rightarrow> (case py_int s of None \<Rightarrow> Inl ValueError | Some v \<Rightarrow> Inr v))"

definition write_file :: "world \<Rightarrow> string \<Rightarrow> string \<Rightarrow> (error + unit) \<times> world" where
  \<comment> \<open>open for writing, write, close\<close>
  "write_file w path content =
     (if locked w path then (Inl PermissionError, w)
      else (Inr (), emit (Write path content) (w\<lparr>files := (files w)(path \<mapsto> content)\<rparr>)))"

definition download_and_write_bib ::
  "nat \<Rightarrow> world \<Rightarrow> header_map \<Rightarrow> string \<Rightarrow> string \<Rightarrow> (error + unit) \<times> world" where
  "download_and_write_bib depth w zotero_headers zotero_url file_name =
     (case fetch_url w (Some zotero_url) zotero_headers of
        (Inl e, w1) \<Rightarrow> (Inl e, w1)
      | (Inr zotero_connection, w1) \<Rightarrow>
          if status_code zotero_connection = 403
          then (Inr (), emit (LogError ''Access to library not granted.'') w1)
          else
            (case read_cached_version w1 file_name of
               (cached_version, w2) \<Rightarrow>
                 (case get_latest_version zotero_connection of
                    Inl e \<Rightarrow> (Inl e, w2)
                  | Inr latest_version \<Rightarrow>
                      if cached_version = latest_version
                      then (Inr (),
                            emit (LogInfo (''online version '' @ py_str latest_version
                                    @ '' is not different from cache ''
                                    @ py_str cached_version @ ''. Done!'')) w2)
                      else
                        (case follow_and_extract depth
                                (emit (LogInfo (''online version '' @ py_str latest_version
                                         @ '' is different from cache ''
                                         @ py_str cached_version @ ''. Fetching data...'')) w2)
                                (Some zotero_url) zotero_headers of
                           (Inl e, w3) \<Rightarrow> (Inl e, w3)
                         | (Inr biblatex_file_content, w3) \<Rightarrow>
                             (case write_file w3 (content_path file_name)
                                     biblatex_file_content of
                                (Inl e, w4) \<Rightarrow> (Inl e, w4)
                              | (Inr _, w4) \<Rightarrow>
                                  (case write_file
                                          (emit (LogInfo (file_name @ '' updated'')) w4)
                                          (marker_path file_name) (py_str latest_version) of
                                     (Inl e, w5) \<Rightarrow> (Inl e, w5)
                                   | (Inr _, w5) \<Rightarrow>
                                       (Inr (),
                                        emit (LogInfo (''last-modified-version updated to ''
                                                @ py_str latest_version)) w5)))))))"

section \<open>Library Enumerator and entry point\<close>

fun truthy :: "jval option \<Rightarrow> bool" where
  \<comment> \<open>\<^verbatim>\<open>if group_id:\<close> on the value of \<^verbatim>\<open>group.get("id")\<close>\<close>
  "truthy None = False"
| "truthy (Some JNull) = False"
| "truthy (Some (JBool b)) = b"
| "truthy (Some (JInt n)) = (n \<noteq> 0)"
| "truthy (Some (JStr s)) = (s \<noteq> [])"

fun fmt_jval :: "jval option \<Rightarrow> string" where
  \<comment> \<open>\<^verbatim>\<open>f"{group_id}"\<close>\<close>
  "fmt_jval None = ''None''"
| "fmt_jval (Some JNull) = ''None''"
| "fmt_jval (Some (JBool b)) = (if b then ''True'' else ''False'')"
| "fmt_jval (Some (JInt n)) = py_str n"
| "fmt_jval (Some (JStr s)) = s"

fun sync_groups ::
  "nat \<Rightarrow> header_map \<Rightarrow> world \<Rightarrow> (string \<times> jval) list list \<Rightarrow> (error + unit) \<times> world" where
  \<comment> \<open>the \<^verbatim>\<open>for group in groups\<close> loop of \<^verbatim>\<open>main\<close>\<close>
  "sync_groups depth zotero_headers w [] = (Inr (), w)"
| "sync_groups depth zotero_headers w (grp # groups) =
     (let group_id = map_of grp ''id'' in
      if truthy group_id then
        (case download_and_write_bib depth w zotero_headers
                (''https://api.zotero.org/groups/'' @ fmt_jval group_id
                   @ ''/items?v=3&format=biblatex'')
                (fmt_jval group_id @ ''.bib'') of
           (Inl e, w1) \<Rightarrow> (Inl e, w1)
         | (Inr _, w1) \<Rightarrow> sync_groups depth zotero_headers w1 groups)
      else sync_groups depth zotero_headers w groups)"

definition main :: "(string \<rightharpoonup> string) \<Rightarrow> nat \<Rightarrow> world \<Rightarrow> (error + unit) \<times> world" where
  "main environ depth w =
     (case environ ''ZOTERO_USER_ID'' of
        None \<Rightarrow> (Inr (), emit (LogError ''ZOTERO_USER_ID not set in GitHub secrets'') w)
      | Some zotero_user_id \<Rightarrow>
          (case environ ''ZOTERO_BEARER_TOKEN'' of
             None \<Rightarrow>
               (Inr (), emit (LogError ''ZOTERO_BEARER_TOKEN not set in GitHub secrets'') w)
           | Some zotero_bearer_token \<Rightarrow>
               (let zotero_headers = [(''Authorization'', ''Bearer '' @ zotero_bearer_token)];
                    zotero_user_url = ''https://api.zotero.org/users/'' @ zotero_user_id
                                        @ ''/items?v=3&format=biblatex''
                in case download_and_write_bib depth w zotero_headers zotero_user_url
                          ''zotero.bib'' of
                     (Inl e, w1) \<Rightarrow> (Inl e, w1)
                   | (Inr _, w1) \<Rightarrow>
                       (case fetch_url (emit (LogInfo ''Downloading all groups!'') w1)
                               (Some (''https://api.zotero.org/users/'' @ zotero_user_id
                                        @ ''/groups/''))
                               zotero_headers of
                          (Inl e, w2) \<Rightarrow> (Inl e, w2)
                        | (Inr groups_response, w2) \<Rightarrow>
                            (case json groups_response of
                               None \<Rightarrow> (Inl ValueError, w2)
                             | Some groups \<Rightarrow>
                                 (case sync_groups depth zotero_headers w2 groups of
                                    (Inl e, w3) \<Rightarrow> (Inl e, w3)
                                  | (Inr _, w3) \<Rightarrow>
                                      (Inr (), emit (LogInfo ''Done!'') w3)))))))"

section \<open>Example worlds\<close>

definition blank_world :: world where
  "blank_world =
     \<lparr>server = (\<lambda>k u h. None),
      requests = 0, now = 0, took = (\<lambda>k. 250), pause = (\<lambda>k. 100), files = Map.empty,
      locked = (\<lambda>p. False), trace = []\<rparr>"

definition ok_page :: "string \<Rightarrow> string option \<Rightarrow> string \<Rightarrow> response" where
  \<comment> \<open>a page with status 200, a version header, an optional next link and a body\<close>
  "ok_page version next_url body =
     \<lparr>status_code = 200,
      headers = [(''last-modified-version'', version)],
      links = (case next_url of
                 None \<Rightarrow> []
               | Some u \<Rightarrow> [(''next'', [(''url'', u), (''rel'', ''next'')])]),
      resp_text = body, elapsed = ''0:00:00.25'', json = None\<rparr>"

definition error_page :: "int \<Rightarrow> response" where
  "error_page code =
     \<lparr>status_code = code, headers = [], links = [], resp_text = [], elapsed = ''0:00:00.25'',
      json = None\<rparr>"

definition flaky_world :: world where
  \<comment> \<open>the first GET gets no response, the second a 503, every later one a page\<close>
  "flaky_world =
     \<lparr>server = (\<lambda>k u h. if k = 0 then None
                          else if k = 1 then Some (error_page 503)
                          else Some (ok_page ''9'' None ''A'')),
      requests = 0, now = 0, took = (\<lambda>k. 250), pause = (\<lambda>k. 100), files = Map.empty, locked = (\<lambda>p. False), trace = []\<rparr>"

definition headerless_world :: world where
  \<comment> \<open>every GET is answered with status 200 and no headers; the marker file holds 7\<close>
  "headerless_world =
     \<lparr>server = (\<lambda>k u h. Some (error_page 200)),
      requests = 0, now = 0, took = (\<lambda>k. 250), pause = (\<lambda>k. 100), files = [''bibliography/zotero.bib-last-modified-version'' \<mapsto> ''7''],
      locked = (\<lambda>p. False), trace = []\<rparr>"

definition steady_world :: world where
  \<comment> \<open>every GET is answered with a single page at version 12; the marker file holds 12\<close>
  "steady_world =
     \<lparr>server = (\<lambda>k u h. Some (ok_page ''12'' None ''A'')),
      requests = 0, now = 0, took = (\<lambda>k. 250), pause = (\<lambda>k. 100), files = [''bibliography/zotero.bib-last-modified-version'' \<mapsto> ''12''],
      locked = (\<lambda>p. False), trace = []\<rparr>"

definition denied_world :: world where
  \<comment> \<open>every GET is answered with status 403\<close>
  "denied_world =
     \<lparr>server = (\<lambda>k u h. Some (error_page 403)),
      requests = 0, now = 0, took = (\<lambda>k. 250), pause = (\<lambda>k. 100), files = Map.empty, locked = (\<lambda>p. False), trace = []\<rparr>"

definition user_id_only :: "string \<rightharpoonup> string" where
  "user_id_only = [''ZOTERO_USER_ID'' \<mapsto> ''1'']"

definition credentials :: "string \<rightharpoonup> string" where
  "credentials = [''ZOTERO_USER_ID'' \<mapsto> ''1'', ''ZOTERO_BEARER_TOKEN'' \<mapsto> ''t'']"

definition three_page_world :: world where
  \<comment> \<open>three linked pages with bodies A, B, C at version 9; the marker file holds 7\<close>
  "three_page_world =
     \<lparr>server = (\<lambda>k u h.
                  if u = ''p1'' then Some (ok_page ''9'' (Some ''p2'') ''A'')
                  else if u = ''p2'' then Some (ok_page ''9'' (Some ''p3'') ''B'')
                  else if u = ''p3'' then Some (ok_page ''9'' None ''C'')
                  else None),
      requests = 0, now = 0, took = (\<lambda>k. 250), pause = (\<lambda>k. 100), files = [''bibliography/zotero.bib-last-modified-version'' \<mapsto> ''7''],
      locked = (\<lambda>p. False), trace = []\<rparr>"

definition marker_locked_world :: world where
  \<comment> \<open>a single page at version 9; the marker file holds 7 and cannot be written\<close>
  "marker_locked_world =
     \<lparr>server = (\<lambda>k u h. Some (ok_page ''9'' None ''A'')),
      requests = 0, now = 0, took = (\<lambda>k. 250), pause = (\<lambda>k. 100), files = [''bibliography/zotero.bib-last-modified-version'' \<mapsto> ''7''],
      locked = (\<lambda>p. p = ''bibliography/zotero.bib-last-modified-version''), trace = []\<rparr>"

definition two_line_marker :: string where
  \<comment> \<open>a marker file of two lines: 5, then x\<close>
  "two_line_marker = ''5'' @ [CHR 0x0A] @ ''x''"

definition two_line_world :: world where
  \<comment> \<open>a single page at version 5; the marker file has two lines\<close>
  "two_line_world =
     \<lparr>server = (\<lambda>k u h. Some (ok_page ''5'' None ''A'')),
      requests = 0, now = 0, took = (\<lambda>k. 250), pause = (\<lambda>k. 100),
      files = [''bibliography/zotero.bib-last-modified-version'' \<mapsto> two_line_marker],
      locked = (\<lambda>p. False), trace = []\<rparr>"

definition garbled_world :: world where
  \<comment> \<open>a single page at version 5; the marker file holds 12 followed by the control
      character 0x1F, which is no integer\<close>
  "garbled_world =
     \<lparr>server = (\<lambda>k u h. Some (ok_page ''5'' None ''A'')),
      requests = 0, now = 0, took = (\<lambda>k. 250), pause = (\<lambda>k. 100),
      files = [''bibliography/zotero.bib-last-modified-version'' \<mapsto> ''12'' @ [CHR 0x1F]],
      locked = (\<lambda>p. False), trace = []\<rparr>"

definition slow_connect_world :: world where
  \<comment> \<open>the first GET fails after 60 seconds, the connect time-out that \<^verbatim>\<open>main\<close> sets;
      every later GET would get a page at once\<close>
  "slow_connect_world =
     \<lparr>server = (\<lambda>k u h. if k = 0 then None else Some (ok_page ''9'' None ''A'')),
      requests = 0, now = 0, took = (\<lambda>k. if k = 0 then 60000 else 250),
      pause = (\<lambda>k. 100), files = Map.empty, locked = (\<lambda>p. False), trace = []\<rparr>"

definition fresh_world :: world where
  \<comment> \<open>a single page at version 5; no file exists yet\<close>
  "fresh_world =
     \<lparr>server = (\<lambda>k u h. Some (ok_page ''5'' None ''A'')),
      requests = 0, now = 0, took = (\<lambda>k. 250), pause = (\<lambda>k. 100), files = Map.empty, locked = (\<lambda>p. False), trace = []\<rparr>"

section \<open>Predicates on effects\<close>

fun is_Write :: "event \<Rightarrow> bool" where
  "is_Write (Write p s) = True"
| "is_Write _ = False"

fun is_Get :: "event \<Rightarrow> bool" where
  "is_Get (Get u h) = True"
| "is_Get _ = False"

definition quiet :: "world \<Rightarrow> world \<Rightarrow> bool" where
  \<comment> \<open>\<open>w'\<close> comes from \<open>w\<close> by effects that leave the file system alone\<close>
  "quiet w w' =
     (server w' = server w \<and> files w' = files w \<and> locked w' = locked w \<and>
      requests w \<le> requests w' \<and>
      (\<exists>es. trace w' = trace w @ es \<and> list_all (\<lambda>e. \<not> is_Write e) es))"

definition net_eq :: "world \<Rightarrow> world \<Rightarrow> bool" where
  \<comment> \<open>the two worlds answer every future request alike\<close>
  "net_eq w w' =
     (server w' = server w \<and> requests w' = requests w \<and> now w' = now w \<and>
      took w' = took w \<and> pause w' = pause w)"

fun ends :: "world \<Rightarrow> nat \<Rightarrow> nat" where
  \<comment> \<open>the time at which a fetch starting in \<open>w\<close> sees its \<open>j\<close>-th attempt (from 0) end,
      when every earlier attempt was retried\<close>
  "ends w 0 = now w + took w (requests w)"
| "ends w (Suc j) = ends w j + pause w (requests w + Suc j) + took w (requests w + Suc j)"

definition sent :: "string \<Rightarrow> header_map \<Rightarrow> world \<Rightarrow> world" where
  \<comment> \<open>the world after one GET for \<open>u\<close>\<close>
  "sent u h w =
     emit (Get u h) (w\<lparr>requests := Suc (requests w), now := now w + took w (requests w)\<rparr>)"

definition served :: "world \<Rightarrow> nat \<Rightarrow> string \<Rightarrow> header_map \<Rightarrow> error + response" where
  \<comment> \<open>how one attempt ends when it is the \<open>k\<close>-th GET of the run\<close>
  "served w k u h =
     (case server w k u h of None \<Rightarrow> Inl TransportError | Some r \<Rightarrow> raise_for_status r)"

fun write_order :: "string \<Rightarrow> string \<Rightarrow> event list \<Rightarrow> bool" where
  \<comment> \<open>among the writes to the paths \<open>c\<close> and \<open>m\<close>, the first one, if any, is to \<open>c\<close>\<close>
  "write_order c m [] = True"
| "write_order c m (Write p s # es) =
     (if p = c then True else if p = m then False else write_order c m es)"
| "write_order c m (e # es) = write_order c m es"

fun page_chain :: "world \<Rightarrow> header_map \<Rightarrow> string \<Rightarrow> response list \<Rightarrow> bool" where
  \<comment> \<open>starting in world \<open>w\<close> at \<open>u\<close>, the fetcher gets the pages \<open>ps\<close> one after the
      other, each linking to the next, the last without a next link\<close>
  "page_chain w h u [] = False"
| "page_chain w h u [p] =
     (fst (fetch_url w (Some u) h) = Inr p \<and> map_of (links p) ''next'' = None)"
| "page_chain w h u (p # q # ps) =
     (fst (fetch_url w (Some u) h) = Inr p \<and>
      (case map_of (links p) ''next'' of
         None \<Rightarrow> False
       | Some link \<Rightarrow>
           (case map_of link ''url'' of
              None \<Rightarrow> False
            | Some u' \<Rightarrow> page_chain (snd (fetch_url w (Some u) h)) h u' (q # ps))))"

section \<open>Decimal text round-trips\<close>

lemma is_digit_digit_char: "d < 10 \<Longrightarrow> is_digit (digit_char d)"
  by (simp add: is_digit_def digit_char_def)

lemma digit_val_digit_char: "d < 10 \<Longrightarrow> digit_val (digit_char d) = d"
  by (simp add: digit_val_def digit_char_def)

lemma digits_tail_snoc:
  "\<forall>c \<in> set xs. is_digit c \<Longrightarrow> is_digit d \<Longrightarrow>
   digits_tail acc (xs @ [d]) = map_option (\<lambda>v. 10 * v + digit_val d) (digits_tail acc xs)"
  by (induction xs arbitrary: acc) auto

lemma digits_of_all_digits: "\<forall>c \<in> set (digits_of n). is_digit c"
proof (induction n rule: digits_of.induct)
  case (1 n)
  show ?case
  proof (cases "n < 10")
    case True
    then show ?thesis by (subst digits_of.simps) (simp add: is_digit_digit_char)
  next
    case False
    with 1 show ?thesis by (subst digits_of.simps) (auto simp: is_digit_digit_char)
  qed
qed

lemma digits_of_nonempty: "digits_of n \<noteq> []"
  by (subst digits_of.simps) simp

lemma digits_val_snoc:
  assumes "xs \<noteq> []" "\<forall>c \<in> set xs. is_digit c" "is_digit d"
  shows "digits_val (xs @ [d]) = map_option (\<lambda>v. 10 * v + digit_val d) (digits_val xs)"
proof -
  from assms(1) obtain c cs where xs: "xs = c # cs" by (cases xs) auto
  with assms(2) have "is_digit c" "\<forall>c \<in> set cs. is_digit c" by auto
  then show ?thesis
    using digits_tail_snoc [of cs d "digit_val c"] assms(3) by (simp add: digits_val_def xs)
qed

lemma digits_val_digits_of: "digits_val (digits_of n) = Some n"
proof (induction n rule: digits_of.induct)
  case (1 n)
  show ?case
  proof (cases "n < 10")
    case True
    then show ?thesis
      by (subst digits_of.simps)
         (simp add: digits_val_def is_digit_digit_char digit_val_digit_char)
  next
    case False
    then have ih: "digits_val (digits_of (n div 10)) = Some (n div 10)" using 1 by simp
    have "digits_val (digits_of (n div 10) @ [digit_char (n mod 10)])
          = Some (10 * (n div 10) + n mod 10)"
      using digits_val_snoc [OF digits_of_nonempty digits_of_all_digits, of "digit_char (n mod 10)" "n div 10"]
      by (simp add: ih is_digit_digit_char digit_val_digit_char)
    with False show ?thesis by (subst digits_of.simps) simp
  qed
qed

lemma is_digit_plain:
  "is_digit c \<Longrightarrow> \<not> is_space c \<and> c \<noteq> CHR 0x0A \<and> c \<noteq> CHR 0x0D \<and> c \<noteq> CHR ''-'' \<and> c \<noteq> CHR ''+''"
  by (auto simp: is_digit_def is_space_def)

lemma readline_plain: "\<forall>c \<in> set s. c \<noteq> CHR 0x0A \<and> c \<noteq> CHR 0x0D \<Longrightarrow> readline s = s"
  by (induction s) auto

lemma dropWhile_none: "\<forall>c \<in> set s. \<not> P c \<Longrightarrow> dropWhile P s = s"
  by (cases s) auto

lemma strip_plain: "\<forall>c \<in> set s. \<not> is_space c \<Longrightarrow> strip s = s"
  by (simp add: strip_def dropWhile_none)

lemma py_str_chars: "c \<in> set (py_str n) \<Longrightarrow> is_digit c \<or> c = CHR ''-''"
  using digits_of_all_digits by (auto simp: py_str_def split: if_splits)

lemma readline_py_str: "readline (py_str n) = py_str n"
  by (rule readline_plain) (use py_str_chars is_digit_plain in fastforce)

lemma strip_py_str: "strip (py_str n) = py_str n"
  by (rule strip_plain) (use py_str_chars is_digit_plain in \<open>fastforce simp: is_space_def\<close>)

lemma py_int_digits_of: "py_int (digits_of n) = Some (int n)"
proof -
  obtain c cs where eq: "digits_of n = c # cs"
    using digits_of_nonempty [of n] by (cases "digits_of n") auto
  have "is_digit c" using digits_of_all_digits [of n] by (simp add: eq)
  then have c: "c \<noteq> CHR ''-''" "c \<noteq> CHR ''+''" using is_digit_plain by auto
  have "strip (digits_of n) = digits_of n"
    by (rule strip_plain) (use digits_of_all_digits is_digit_plain in blast)
  then show ?thesis
    using digits_val_digits_of [of n] c by (simp add: py_int_def eq)
qed

lemma py_int_py_str: "py_int (py_str n) = Some n"
proof (cases "n < 0")
  case True
  have "strip (py_str n) = py_str n" by (rule strip_py_str)
  then show ?thesis
    using True digits_val_digits_of [of "nat (- n)"] by (simp add: py_int_def py_str_def)
next
  case False
  then show ?thesis using py_int_digits_of [of "nat n"] by (simp add: py_str_def)
qed

text \<open>
  C10. For every integer \<open>n\<close> and every output name, writing \<open>n\<close> the way the marker
  write does (the text \<^verbatim>\<open>str(n)\<close> into the marker file of that name) and then reading
  the cached version of the same name gives \<open>n\<close> back.
\<close>

theorem marker_write_read_roundtrip:
  "\<not> locked w (marker_path file_name) \<Longrightarrow>
   fst (write_file w (marker_path file_name) (py_str n)) = Inr () \<and>
   fst (read_cached_version (snd (write_file w (marker_path file_name) (py_str n))) file_name) = n"
  by (simp add: write_file_def read_cached_version_def emit_def readline_py_str py_int_py_str)

theorem marker_write_read_roundtrip_witness:
  "\<not> locked blank_world (marker_path ''zotero.bib'') \<and>
   fst (write_file blank_world (marker_path ''zotero.bib'') (py_str (-42))) = Inr () \<and>
   fst (read_cached_version
          (snd (write_file blank_world (marker_path ''zotero.bib'') (py_str (-42))))
          ''zotero.bib'') = -42"
proof -
  have h: "\<not> locked blank_world (marker_path ''zotero.bib'')"
    by (simp add: blank_world_def)
  show ?thesis
    using h marker_write_read_roundtrip [OF h, of "-42"] by simp
qed

section \<open>Frame properties of the fetcher\<close>

lemma quiet_refl: "quiet w w"
  by (simp add: quiet_def)

lemma quiet_trans: "quiet w w1 \<Longrightarrow> quiet w1 w2 \<Longrightarrow> quiet w w2"
  by (auto simp: quiet_def)

lemma quiet_emit: "\<not> is_Write e \<Longrightarrow> quiet w (emit e w)"
  by (simp add: quiet_def emit_def)

lemma emit_fields:
  "server (emit e w) = server w" "requests (emit e w) = requests w"
  "files (emit e w) = files w" "locked (emit e w) = locked w"
  "trace (emit e w) = trace w @ [e]"
  "now (emit e w) = now w" "took (emit e w) = took w" "pause (emit e w) = pause w"
  by (simp_all add: emit_def)

lemma backoff_fields:
  "server (backoff w) = server w" "requests (backoff w) = requests w"
  "files (backoff w) = files w" "locked (backoff w) = locked w"
  "trace (backoff w) = trace w"
  "now (backoff w) = now w + pause w (requests w)"
  "took (backoff w) = took w" "pause (backoff w) = pause w"
  by (simp_all add: backoff_def)

lemma sent_fields:
  "server (sent u h w) = server w" "requests (sent u h w) = Suc (requests w)"
  "files (sent u h w) = files w" "locked (sent u h w) = locked w"
  "trace (sent u h w) = trace w @ [Get u h]"
  "now (sent u h w) = now w + took w (requests w)"
  "took (sent u h w) = took w" "pause (sent u h w) = pause w"
  by (simp_all add: sent_def emit_def)

lemma quiet_backoff: "quiet w (backoff w)"
  by (simp add: quiet_def backoff_fields)

lemma quiet_sent: "quiet w (sent u h w)"
  by (simp add: quiet_def sent_fields)

lemma fetch_url_body_Some:
  "fetch_url_body (Some u) h w =
     (case served w (requests w) u h of
        Inl e \<Rightarrow> (Inl e, sent u h w)
      | Inr r \<Rightarrow>
          (Inr r,
           emit (LogInfo (u @ '' returned '' @ py_str (status_code r) @ '' after '' @ elapsed r))
             (sent u h w)))"
  by (auto simp: fetch_url_body_def client_get_def served_def raise_for_status_def fmt_url_def
                 sent_def
           split: option.splits)

lemma fetch_url_body_None: "fetch_url_body None h w = (Inl TypeError, w)"
  by (simp add: fetch_url_body_def client_get_def)

lemma quiet_fetch_url_body: "quiet w (snd (fetch_url_body url h w))"
proof (cases url)
  case None
  then show ?thesis by (simp add: fetch_url_body_None quiet_refl)
next
  case (Some u)
  have "quiet w (emit (LogInfo m) (sent u h w))" for m
    using quiet_sent [of w u h] quiet_emit [of "LogInfo m" "sent u h w"] quiet_trans
    by fastforce
  then show ?thesis
    unfolding Some fetch_url_body_Some
    by (auto simp: quiet_sent split: sum.splits)
qed

lemma quiet_stamina_retry:
  "\<forall>w. quiet w (snd (f w)) \<Longrightarrow> quiet w (snd (stamina_retry on n timeout start f w))"
proof (induction on n timeout start f w rule: stamina_retry.induct)
  case (1 on n timeout start f w)
  show ?case
  proof (cases "f w")
    case (Pair r w1)
    have q: "quiet w w1" using "1.prems" Pair by (metis snd_conv)
    show ?thesis
    proof (cases r)
      case (Inl e)
      show ?thesis
      proof (cases "on e \<and> now w1 < start + timeout")
        case True
        then have "quiet (backoff w1)
                     (snd (stamina_retry on (Suc n) timeout start f (backoff w1)))"
          using 1 Pair Inl by simp
        then have "quiet w (snd (stamina_retry on (Suc n) timeout start f (backoff w1)))"
          using q quiet_backoff [of w1] quiet_trans by blast
        then show ?thesis using Pair Inl True by simp
      next
        case False
        with q show ?thesis using Pair Inl by auto
      qed
    next
      case (Inr x)
      with q show ?thesis using Pair by simp
    qed
  qed
qed simp_all

lemma quiet_fetch_url: "quiet w (snd (fetch_url w url h))"
  unfolding fetch_url_def by (rule quiet_stamina_retry) (simp add: quiet_fetch_url_body)

lemma stamina_retry_result:
  "\<forall>w x. fst (f w) = Inr x \<longrightarrow> Q x \<Longrightarrow>
   fst (stamina_retry on n timeout start f w) = Inr x \<Longrightarrow> Q x"
proof (induction on n timeout start f w rule: stamina_retry.induct)
  case (1 on n timeout start f w)
  show ?case
  proof (cases "f w")
    case (Pair r w1)
    show ?thesis
    proof (cases r)
      case (Inl e)
      show ?thesis
      proof (cases "on e \<and> now w1 < start + timeout")
        case True
        have "fst (stamina_retry on (Suc n) timeout start f (backoff w1)) = Inr x"
          using "1.prems"(2) Pair Inl True by simp
        then show ?thesis
          by (rule "1.IH" [OF Pair [symmetric] Inl True "1.prems"(1)])
      next
        case False
        then show ?thesis using "1.prems"(2) Pair Inl by auto
      qed
    next
      case (Inr y)
      then have "fst (f w) = Inr x" using "1.prems"(2) Pair by simp
      with "1.prems"(1) show ?thesis by blast
    qed
  qed
qed auto

lemma fetch_url_body_success:
  "fst (fetch_url_body url h w) = Inr r \<Longrightarrow> 200 \<le> status_code r \<and> status_code r \<le> 299"
  by (auto simp: fetch_url_body_def client_get_def raise_for_status_def
           split: option.splits sum.splits if_splits prod.splits)

lemma fetch_url_success:
  "fst (fetch_url w url h) = Inr r \<Longrightarrow> 200 \<le> status_code r \<and> status_code r \<le> 299"
  unfolding fetch_url_def
  by (rule stamina_retry_result [where f = "fetch_url_body url h"])
     (use fetch_url_body_success in blast, assumption)

lemma fetch_url_not_403: "fetch_url w url h = (Inr r, w1) \<Longrightarrow> status_code r \<noteq> 403"
  using fetch_url_success [of w url h r] by simp

section \<open>Retries of the fetcher\<close>

lemma served_same_server: "server w' = server w \<Longrightarrow> served w' k u h = served w k u h"
  by (simp add: served_def)

lemma served_emit [simp]: "served (emit e w) k u h = served w k u h"
  by (simp add: served_def emit_fields)

lemma served_sent [simp]: "served (sent u' h' w) k u h = served w k u h"
  by (simp add: served_def sent_fields)

lemma served_backoff [simp]: "served (backoff w) k u h = served w k u h"
  by (simp add: served_def backoff_fields)

lemma fetch_url_unfold:
  "fetch_url w (Some u) h =
     (case fetch_url_body (Some u) h w of
        (Inl e, w1) \<Rightarrow>
          if now w1 < now w + 45000 then
            (case fetch_url_body (Some u) h (backoff w1) of
               (Inl e1, w2) \<Rightarrow>
                 if now w2 < now w + 45000 then fetch_url_body (Some u) h (backoff w2)
                 else (Inl e1, w2)
             | (Inr x, w2) \<Rightarrow> (Inr x, w2))
          else (Inl e, w1)
      | (Inr x, w1) \<Rightarrow> (Inr x, w1))"
proof -
  obtain r1 w1 where b1: "fetch_url_body (Some u) h w = (r1, w1)"
    by (cases "fetch_url_body (Some u) h w") auto
  show ?thesis
  proof (cases r1)
    case (Inr x)
    then show ?thesis by (simp add: fetch_url_def numeral_3_eq_3 b1)
  next
    case e: (Inl e)
    have he: "is_HTTPError e"
      using b1 e
      by (auto simp: fetch_url_body_Some served_def raise_for_status_def
               split: sum.splits option.splits if_splits)
    show ?thesis
    proof (cases "now w1 < now w + 45000")
      case False
      then show ?thesis by (simp add: fetch_url_def numeral_3_eq_3 b1 e)
    next
      case t1: True
      obtain r2 w2 where b2: "fetch_url_body (Some u) h (backoff w1) = (r2, w2)"
        by (cases "fetch_url_body (Some u) h (backoff w1)") auto
      show ?thesis
      proof (cases r2)
        case (Inr x)
        then show ?thesis by (simp add: fetch_url_def numeral_3_eq_3 b1 e he t1 b2)
      next
        case e1: (Inl e1)
        have he1: "is_HTTPError e1"
          using b2 e1
          by (auto simp: fetch_url_body_Some served_def raise_for_status_def
                   split: sum.splits option.splits if_splits)
        show ?thesis
          by (simp add: fetch_url_def numeral_3_eq_3 b1 e he t1 b2 e1 he1)
      qed
    qed
  qed
qed

text \<open>
  C6, as stated, fails: the retry decorator also stops when 45 seconds have passed since
  the fetch began, and \<^verbatim>\<open>main\<close> lets a connection attempt take 60 seconds. When the first
  GET fails after those 60 seconds, the fetcher raises after that single attempt,
  although the second attempt would have been answered with a page.
\<close>

theorem slow_connect_counterexample:
  "served slow_connect_world 0 ''u'' [] = Inl TransportError \<and>
   served slow_connect_world 1 ''u'' [] = Inr (ok_page ''9'' None ''A'') \<and>
   fst (fetch_url slow_connect_world (Some ''u'') []) = Inl TransportError \<and>
   requests (snd (fetch_url slow_connect_world (Some ''u'') [])) = 1"
proof -
  have s0: "served slow_connect_world 0 ''u'' [] = Inl TransportError"
    by (simp add: served_def slow_connect_world_def)
  have s1: "served slow_connect_world 1 ''u'' [] = Inr (ok_page ''9'' None ''A'')"
    by (simp add: served_def slow_connect_world_def raise_for_status_def ok_page_def)
  have w: "requests slow_connect_world = 0" "now slow_connect_world = 0"
          "took slow_connect_world 0 = 60000"
    by (simp_all add: slow_connect_world_def)
  have f: "fetch_url slow_connect_world (Some ''u'') []
             = (Inl TransportError, sent ''u'' [] slow_connect_world)"
    by (simp add: fetch_url_unfold fetch_url_body_Some w s0 sent_fields)
  show ?thesis using s0 s1 by (simp add: f sent_fields w)
qed

text \<open>
  C6, amended. For every URL the fetcher sends at most three GETs. It raises to its
  caller only after an attempt has failed, every attempt made having failed (no response,
  or an error status), the error raised being that of the last attempt, and only when
  three attempts were made or 45 seconds have passed since the fetch began. When an
  attempt within the three succeeds, every earlier one having failed before the 45
  seconds were over, the caller gets the response of that attempt, whole.
\<close>

theorem fetch_url_attempts_and_deadline:
  "requests (snd (fetch_url w (Some u) h)) \<le> requests w + 3 \<and>
   (\<forall>e. fst (fetch_url w (Some u) h) = Inl e \<longrightarrow>
      requests w < requests (snd (fetch_url w (Some u) h)) \<and>
      (\<forall>i < requests (snd (fetch_url w (Some u) h)) - requests w.
         \<exists>e'. served w (requests w + i) u h = Inl e') \<and>
      served w (requests (snd (fetch_url w (Some u) h)) - 1) u h = Inl e \<and>
      (requests (snd (fetch_url w (Some u) h)) = requests w + 3 \<or>
       now w + 45000 \<le> now (snd (fetch_url w (Some u) h)))) \<and>
   (\<forall>i < 3. \<forall>r. served w (requests w + i) u h = Inr r \<and>
      (\<forall>j < i. (\<exists>e'. served w (requests w + j) u h = Inl e') \<and> ends w j < now w + 45000) \<longrightarrow>
      fst (fetch_url w (Some u) h) = Inr r \<and>
      requests (snd (fetch_url w (Some u) h)) = requests w + i + 1)"
proof -
  let ?k = "requests w"
  let ?t1 = "took w ?k < 45000"
  let ?t2 = "took w ?k + pause w (Suc ?k) + took w (Suc ?k) < 45000"
  have three: "\<And>P. (\<forall>i<3::nat. P i) = (P 0 \<and> P (Suc 0) \<and> P (Suc (Suc 0)))"
    by (auto simp: numeral_3_eq_3 less_Suc_eq)
  have lt2: "\<And>i::nat. (i < 2) = (i = 0 \<or> i = Suc 0)"
    by auto
  have lt3: "\<And>i::nat. (i < 3) = (i = 0 \<or> i = Suc 0 \<or> i = Suc (Suc 0))"
    by auto
  note ss = fetch_url_unfold fetch_url_body_Some sent_fields backoff_fields emit_fields
            less_Suc_eq lt2 lt3
  show ?thesis
  proof (cases "served w ?k u h")
    case (Inr r0)
    then show ?thesis unfolding three by (auto simp: ss)
  next
    case e0: (Inl e0)
    show ?thesis
    proof (cases ?t1)
      case False
      with e0 show ?thesis unfolding three by (auto simp: ss)
    next
      case t1: True
      show ?thesis
      proof (cases "served w (Suc ?k) u h")
        case (Inr r1)
        with e0 t1 show ?thesis unfolding three by (auto simp: ss)
      next
        case e1: (Inl e1)
        show ?thesis
        proof (cases ?t2)
          case False
          with e0 t1 e1 show ?thesis unfolding three by (auto simp: ss)
        next
          case t2: True
          show ?thesis
          proof (cases "served w (Suc (Suc ?k)) u h")
            case (Inr r2)
            with e0 t1 e1 t2 show ?thesis unfolding three by (auto simp: ss)
          next
            case (Inl e2)
            with e0 t1 e1 t2 show ?thesis unfolding three by (auto simp: ss)
          qed
        qed
      qed
    qed
  qed
qed

theorem fetch_url_attempts_and_deadline_witness:
  "served flaky_world 0 ''u'' [] = Inl TransportError \<and>
   served flaky_world 1 ''u'' [] = Inl (HTTPStatusError 503) \<and>
   served flaky_world 2 ''u'' [] = Inr (ok_page ''9'' None ''A'') \<and>
   ends flaky_world 0 < now flaky_world + 45000 \<and>
   ends flaky_world 1 < now flaky_world + 45000 \<and>
   fst (fetch_url flaky_world (Some ''u'') []) = Inr (ok_page ''9'' None ''A'') \<and>
   requests (snd (fetch_url flaky_world (Some ''u'') [])) = 3 \<and>
   fst (fetch_url blank_world (Some ''u'') []) = Inl TransportError \<and>
   requests blank_world < requests (snd (fetch_url blank_world (Some ''u'') [])) \<and>
   (requests (snd (fetch_url blank_world (Some ''u'') [])) = 3 \<or>
    45000 \<le> now (snd (fetch_url blank_world (Some ''u'') [])))"
proof -
  let ?page = "ok_page ''9'' None ''A''"
  have s0: "served flaky_world 0 ''u'' [] = Inl TransportError"
    by (simp add: served_def flaky_world_def)
  have s1: "served flaky_world 1 ''u'' [] = Inl (HTTPStatusError 503)"
    by (simp add: served_def flaky_world_def raise_for_status_def error_page_def)
  have s2: "served flaky_world 2 ''u'' [] = Inr ?page"
    by (simp add: served_def flaky_world_def raise_for_status_def ok_page_def)
  have r0: "requests flaky_world = 0" by (simp add: flaky_world_def)
  have e0: "ends flaky_world 0 < now flaky_world + 45000"
    by (simp add: flaky_world_def)
  have e1: "ends flaky_world 1 < now flaky_world + 45000"
    by (simp add: flaky_world_def)
  have prior: "\<forall>j<2. (\<exists>e'. served flaky_world (requests flaky_world + j) ''u'' [] = Inl e') \<and>
                     ends flaky_world j < now flaky_world + 45000"
    using s0 s1 e0 e1 by (auto simp: r0 less_Suc_eq numeral_2_eq_2)
  have third: "\<forall>i < 3. \<forall>r. served flaky_world (requests flaky_world + i) ''u'' [] = Inr r \<and>
      (\<forall>j < i. (\<exists>e'. served flaky_world (requests flaky_world + j) ''u'' [] = Inl e') \<and>
                ends flaky_world j < now flaky_world + 45000) \<longrightarrow>
      fst (fetch_url flaky_world (Some ''u'') []) = Inr r \<and>
      requests (snd (fetch_url flaky_world (Some ''u'') [])) = requests flaky_world + i + 1"
    using fetch_url_attempts_and_deadline [of flaky_world "''u''" "[]"] by blast
  have ok: "fst (fetch_url flaky_world (Some ''u'') []) = Inr ?page \<and>
            requests (snd (fetch_url flaky_world (Some ''u'') [])) = 3"
    using third [rule_format, of 2 ?page] s2 prior
    by (simp add: r0 numeral_2_eq_2 numeral_3_eq_3)
  have rb: "requests blank_world = 0" "now blank_world = 0" by (simp_all add: blank_world_def)
  have sb: "\<And>k. served blank_world k ''u'' [] = Inl TransportError"
    by (simp add: served_def blank_world_def)
  have fails: "fst (fetch_url blank_world (Some ''u'') []) = Inl TransportError"
    by (simp add: fetch_url_unfold fetch_url_body_Some sb)
  have raised: "\<forall>e. fst (fetch_url blank_world (Some ''u'') []) = Inl e \<longrightarrow>
      requests blank_world < requests (snd (fetch_url blank_world (Some ''u'') [])) \<and>
      (\<forall>i < requests (snd (fetch_url blank_world (Some ''u'') [])) - requests blank_world.
         \<exists>e'. served blank_world (requests blank_world + i) ''u'' [] = Inl e') \<and>
      served blank_world (requests (snd (fetch_url blank_world (Some ''u'') [])) - 1) ''u'' []
        = Inl e \<and>
      (requests (snd (fetch_url blank_world (Some ''u'') [])) = requests blank_world + 3 \<or>
       now blank_world + 45000 \<le> now (snd (fetch_url blank_world (Some ''u'') [])))"
    using fetch_url_attempts_and_deadline [of blank_world "''u''" "[]"] by blast
  have down: "requests blank_world < requests (snd (fetch_url blank_world (Some ''u'') [])) \<and>
              (requests (snd (fetch_url blank_world (Some ''u'') [])) = 3 \<or>
               45000 \<le> now (snd (fetch_url blank_world (Some ''u'') [])))"
    using raised [rule_format, OF fails] by (simp add: rb)
  show ?thesis using s0 s1 s2 e0 e1 ok fails down by simp
qed

section \<open>Credentials and the probe\<close>

lemma quiet_read_cached_version: "quiet w (snd (read_cached_version w file_name))"
  by (auto simp: read_cached_version_def quiet_def emit_def Let_def split: option.splits)

lemma read_cached_version_requests:
  "requests (snd (read_cached_version w file_name)) = requests w"
  by (auto simp: read_cached_version_def emit_def Let_def split: option.splits)

lemma read_cached_version_trace:
  "\<exists>es. trace (snd (read_cached_version w file_name))
          = trace w @ Read (marker_path file_name) # es \<and>
        list_all (\<lambda>e. \<not> is_Write e \<and> \<not> is_Get e) es"
  by (auto simp: read_cached_version_def emit_def Let_def split: option.splits)

lemma read_cached_version_files:
  "files w' = files w \<Longrightarrow>
   fst (read_cached_version w' file_name) = fst (read_cached_version w file_name)"
  by (auto simp: read_cached_version_def emit_def Let_def split: option.splits)

lemma fetch_url_files: "files (snd (fetch_url w url h)) = files w"
  using quiet_fetch_url [of w url h] by (simp add: quiet_def)

text \<open>
  C8. When ZOTERO_USER_ID or ZOTERO_BEARER_TOKEN is unset, the run logs one error and
  ends normally: no GET is sent, the file system is untouched, and the error line is the
  only effect.
\<close>

theorem missing_credentials_abort:
  "environ ''ZOTERO_USER_ID'' = None \<or> environ ''ZOTERO_BEARER_TOKEN'' = None \<Longrightarrow>
   fst (main environ depth w) = Inr () \<and>
   requests (snd (main environ depth w)) = requests w \<and>
   files (snd (main environ depth w)) = files w \<and>
   (\<exists>msg. trace (snd (main environ depth w)) = trace w @ [LogError msg])"
  by (auto simp: main_def emit_def split: option.splits)

theorem missing_credentials_abort_witness:
  "(user_id_only ''ZOTERO_USER_ID'' = None \<or> user_id_only ''ZOTERO_BEARER_TOKEN'' = None) \<and>
   fst (main user_id_only 10 flaky_world) = Inr () \<and>
   requests (snd (main user_id_only 10 flaky_world)) = 0 \<and>
   trace (snd (main user_id_only 10 flaky_world))
     = [LogError ''ZOTERO_BEARER_TOKEN not set in GitHub secrets'']"
proof -
  have h: "user_id_only ''ZOTERO_USER_ID'' = None \<or> user_id_only ''ZOTERO_BEARER_TOKEN'' = None"
    by (simp add: user_id_only_def)
  have t: "trace (snd (main user_id_only 10 flaky_world))
     = [LogError ''ZOTERO_BEARER_TOKEN not set in GitHub secrets'']"
    by (simp add: main_def emit_def flaky_world_def user_id_only_def)
  have r0: "requests flaky_world = 0" by (simp add: flaky_world_def)
  have "fst (main user_id_only 10 flaky_world) = Inr () \<and>
        requests (snd (main user_id_only 10 flaky_world)) = requests flaky_world"
    using missing_credentials_abort [OF h, of 10 flaky_world] by blast
  then show ?thesis using h t r0 by simp
qed

text \<open>
  C9. When the probe succeeds but its headers hold no last-modified-version entry, the
  sync of the resource ends with a TypeError that nothing catches. It is raised right
  after the cache read: the final world is the one the cache read left, the file system
  is unchanged, and after the probe the trace holds the read and no write and no GET.
\<close>

theorem missing_version_header:
  assumes "fst (fetch_url w (Some zotero_url) h) = Inr r"
      and "map_of (headers r) ''last-modified-version'' = None"
  shows "download_and_write_bib depth w h zotero_url file_name =
           (Inl TypeError,
            snd (read_cached_version (snd (fetch_url w (Some zotero_url) h)) file_name)) \<and>
         files (snd (download_and_write_bib depth w h zotero_url file_name)) = files w \<and>
         (\<exists>es. trace (snd (download_and_write_bib depth w h zotero_url file_name)) =
                 trace (snd (fetch_url w (Some zotero_url) h))
                   @ Read (marker_path file_name) # es \<and>
               list_all (\<lambda>e. \<not> is_Write e \<and> \<not> is_Get e) es)"
proof -
  obtain w1 where f: "fetch_url w (Some zotero_url) h = (Inr r, w1)"
    using assms(1) by (cases "fetch_url w (Some zotero_url) h") auto
  have s: "status_code r \<noteq> 403" using fetch_url_not_403 [OF f] .
  have l: "get_latest_version r = Inl TypeError"
    using assms(2) by (simp add: get_latest_version_def)
  have d: "download_and_write_bib depth w h zotero_url file_name =
             (Inl TypeError, snd (read_cached_version w1 file_name))"
    by (simp add: download_and_write_bib_def f s l split: prod.splits)
  have fl: "files (snd (read_cached_version w1 file_name)) = files w"
    using quiet_read_cached_version [of w1 file_name] fetch_url_files [of w "Some zotero_url" h]
    by (simp add: quiet_def f)
  show ?thesis
    using d fl read_cached_version_trace [of w1 file_name] by (simp add: f)
qed

lemma fetch_url_first_ok:
  "served w (requests w) u h = Inr r \<Longrightarrow>
   fetch_url w (Some u) h =
     (Inr r, emit (LogInfo (u @ '' returned '' @ py_str (status_code r) @ '' after '' @ elapsed r))
               (sent u h w))"
  by (simp add: fetch_url_unfold fetch_url_body_Some)

theorem missing_version_header_witness:
  "fst (fetch_url headerless_world (Some ''u'') []) = Inr (error_page 200) \<and>
   map_of (headers (error_page 200)) ''last-modified-version'' = None \<and>
   fst (download_and_write_bib 10 headerless_world [] ''u'' ''zotero.bib'') = Inl TypeError \<and>
   files (snd (download_and_write_bib 10 headerless_world [] ''u'' ''zotero.bib''))
     = files headerless_world"
proof -
  have s: "served headerless_world (requests headerless_world) ''u'' [] = Inr (error_page 200)"
    by (simp add: served_def headerless_world_def raise_for_status_def error_page_def)
  have h1: "fst (fetch_url headerless_world (Some ''u'') []) = Inr (error_page 200)"
    by (simp add: fetch_url_first_ok [OF s])
  have h2: "map_of (headers (error_page 200)) ''last-modified-version'' = None"
    by (simp add: error_page_def)
  note inst = missing_version_header [OF h1 h2, of 10 "''zotero.bib''"]
  have a: "fst (download_and_write_bib 10 headerless_world [] ''u'' ''zotero.bib'')
             = Inl TypeError"
    using inst [THEN conjunct1] by simp
  have b: "files (snd (download_and_write_bib 10 headerless_world [] ''u'' ''zotero.bib''))
             = files headerless_world"
    using inst [THEN conjunct2, THEN conjunct1] .
  from h1 h2 a b show ?thesis by blast
qed

lemma sync_noop:
  assumes "fst (fetch_url w (Some zotero_url) h) = Inr r"
      and "get_latest_version r = Inr latest"
      and "fst (read_cached_version w file_name) = latest"
  shows "fst (download_and_write_bib depth w h zotero_url file_name) = Inr () \<and>
         files (snd (download_and_write_bib depth w h zotero_url file_name)) = files w \<and>
         requests (snd (download_and_write_bib depth w h zotero_url file_name))
           = requests (snd (fetch_url w (Some zotero_url) h)) \<and>
         (\<exists>es. trace (snd (download_and_write_bib depth w h zotero_url file_name)) =
                 trace (snd (fetch_url w (Some zotero_url) h)) @ es \<and>
               list_all (\<lambda>e. \<not> is_Write e \<and> \<not> is_Get e) es)"
proof -
  obtain w1 where f: "fetch_url w (Some zotero_url) h = (Inr r, w1)"
    using assms(1) by (cases "fetch_url w (Some zotero_url) h") auto
  have s: "status_code r \<noteq> 403" using fetch_url_not_403 [OF f] .
  have fw1: "files w1 = files w" using fetch_url_files [of w "Some zotero_url" h] by (simp add: f)
  obtain cached w2 where c: "read_cached_version w1 file_name = (cached, w2)"
    by (cases "read_cached_version w1 file_name") auto
  have ceq: "cached = latest"
    using read_cached_version_files [OF fw1, of file_name] assms(3) by (simp add: c)
  have q: "quiet w1 w2" using quiet_read_cached_version [of w1 file_name] by (simp add: c)
  have rq: "requests w2 = requests w1"
    using read_cached_version_requests [of w1 file_name] by (simp add: c)
  obtain es where tr: "trace w2 = trace w1 @ Read (marker_path file_name) # es"
      "list_all (\<lambda>e. \<not> is_Write e \<and> \<not> is_Get e) es"
    using read_cached_version_trace [of w1 file_name] by (auto simp: c)
  have d: "download_and_write_bib depth w h zotero_url file_name =
             (Inr (), emit (LogInfo (''online version '' @ py_str latest
                                    @ '' is not different from cache ''
                                    @ py_str latest @ ''. Done!'')) w2)"
    by (simp add: download_and_write_bib_def f s c ceq assms(2))
  show ?thesis
    using q rq tr fw1 by (simp add: d f emit_fields quiet_def)
qed

section \<open>The no-op path and the access check\<close>

text \<open>
  C4. When the cached version read from the marker file equals the latest version on the
  probe response, the sync ends normally as a no-op: the file system is unchanged, no GET
  is sent beyond those of the probe, and after the probe the trace holds neither a GET nor
  a write.
\<close>

theorem equal_versions_noop:
  assumes "fst (fetch_url w (Some zotero_url) h) = Inr r"
      and "get_latest_version r = Inr latest"
      and "fst (read_cached_version w file_name) = latest"
  shows "fst (download_and_write_bib depth w h zotero_url file_name) = Inr () \<and>
         files (snd (download_and_write_bib depth w h zotero_url file_name)) = files w \<and>
         requests (snd (download_and_write_bib depth w h zotero_url file_name))
           = requests (snd (fetch_url w (Some zotero_url) h)) \<and>
         (\<exists>es. trace (snd (download_and_write_bib depth w h zotero_url file_name)) =
                 trace (snd (fetch_url w (Some zotero_url) h)) @ es \<and>
               list_all (\<lambda>e. \<not> is_Write e \<and> \<not> is_Get e) es)"
  using assms by (rule sync_noop)

lemma py_int_12: "py_int ''12'' = Some 12"
  by (simp add: py_int_def strip_def is_space_def digits_val_def is_digit_def digit_val_def)

theorem equal_versions_noop_witness:
  "fst (fetch_url steady_world (Some ''u'') []) = Inr (ok_page ''12'' None ''A'') \<and>
   get_latest_version (ok_page ''12'' None ''A'') = Inr 12 \<and>
   fst (read_cached_version steady_world ''zotero.bib'') = 12 \<and>
   fst (download_and_write_bib 10 steady_world [] ''u'' ''zotero.bib'') = Inr () \<and>
   files (snd (download_and_write_bib 10 steady_world [] ''u'' ''zotero.bib''))
     = files steady_world \<and>
   requests (snd (download_and_write_bib 10 steady_world [] ''u'' ''zotero.bib'')) = 1"
proof -
  let ?page = "ok_page ''12'' None ''A''"
  have s: "served steady_world (requests steady_world) ''u'' [] = Inr ?page"
    by (simp add: served_def steady_world_def raise_for_status_def ok_page_def)
  have h1: "fst (fetch_url steady_world (Some ''u'') []) = Inr ?page"
    by (simp add: fetch_url_first_ok [OF s])
  have h2: "get_latest_version ?page = Inr 12"
    by (simp add: get_latest_version_def ok_page_def py_int_12)
  have h3: "fst (read_cached_version steady_world ''zotero.bib'') = 12"
    by (simp add: read_cached_version_def steady_world_def marker_path_def py_int_12 Let_def)
  have rq: "requests (snd (fetch_url steady_world (Some ''u'') [])) = 1"
    by (simp add: fetch_url_first_ok [OF s] emit_fields sent_fields) (simp add: steady_world_def)
  note inst = equal_versions_noop [OF h1 h2 h3, of 10]
  have a: "fst (download_and_write_bib 10 steady_world [] ''u'' ''zotero.bib'') = Inr ()"
    using inst [THEN conjunct1] .
  have b: "files (snd (download_and_write_bib 10 steady_world [] ''u'' ''zotero.bib''))
             = files steady_world"
    using inst [THEN conjunct2, THEN conjunct1] .
  have c: "requests (snd (download_and_write_bib 10 steady_world [] ''u'' ''zotero.bib'')) = 1"
    using inst [THEN conjunct2, THEN conjunct2, THEN conjunct1] rq by simp
  from h1 h2 h3 a b c show ?thesis by blast
qed

text \<open>
  C1. The claim: a probe answered with status 403 ends the sync of that resource with an
  access-denied line in the log, and the run goes on to the next resource. The code at
  such a server: the fetcher raises on status 403 like on any error status, retries, and
  after the third GET the error leaves \<^verbatim>\<open>download_and_write_bib\<close> and \<^verbatim>\<open>main\<close>. The
  run ends with that error; the trace holds the three GETs of the probe and nothing else:
  no access-denied line, no request for the groups.
\<close>

theorem access_denied_aborts_run:
  "fst (main credentials 10 denied_world) = Inl (HTTPStatusError 403) \<and>
   requests (snd (main credentials 10 denied_world)) = 3 \<and>
   trace (snd (main credentials 10 denied_world)) =
     [Get ''https://api.zotero.org/users/1/items?v=3&format=biblatex''
          [(''Authorization'', ''Bearer t'')],
      Get ''https://api.zotero.org/users/1/items?v=3&format=biblatex''
          [(''Authorization'', ''Bearer t'')],
      Get ''https://api.zotero.org/users/1/items?v=3&format=biblatex''
          [(''Authorization'', ''Bearer t'')]]"
proof -
  let ?u = "''https://api.zotero.org/users/1/items?v=3&format=biblatex''"
  let ?h = "[(''Authorization'', ''Bearer t'')]"
  have sv: "\<And>k. served denied_world k ?u ?h = Inl (HTTPStatusError 403)"
    by (simp add: served_def denied_world_def raise_for_status_def error_page_def)
  have dw: "requests denied_world = 0" "now denied_world = 0" "trace denied_world = []"
           "took denied_world = (\<lambda>k. 250)" "pause denied_world = (\<lambda>k. 100)"
    by (simp_all add: denied_world_def)
  note ev = fetch_url_unfold fetch_url_body_Some sv emit_fields sent_fields backoff_fields dw
  have f: "fst (fetch_url denied_world (Some ?u) ?h) = Inl (HTTPStatusError 403)"
    by (simp add: ev)
  have r: "requests (snd (fetch_url denied_world (Some ?u) ?h)) = 3"
    by (simp add: ev)
  have t: "trace (snd (fetch_url denied_world (Some ?u) ?h)) = [Get ?u ?h, Get ?u ?h, Get ?u ?h]"
    by (simp add: ev)
  have m: "main credentials 10 denied_world =
             (Inl (HTTPStatusError 403), snd (fetch_url denied_world (Some ?u) ?h))"
    using f by (cases "fetch_url denied_world (Some ?u) ?h")
               (simp add: main_def credentials_def download_and_write_bib_def)
  show ?thesis
    using r t by (simp add: m)
qed

section \<open>Order of the two writes\<close>

lemma quiet_follow_and_extract: "quiet w (snd (follow_and_extract depth w url h))"
proof (induction depth arbitrary: w url)
  case 0
  show ?case by (simp add: quiet_refl)
next
  case (Suc depth)
  show ?case
  proof (cases "fetch_url w url h")
    case (Pair res w1)
    have q1: "quiet w w1" using quiet_fetch_url [of w url h] Pair by simp
    show ?thesis
    proof (cases res)
      case (Inl e)
      with q1 Pair show ?thesis by simp
    next
      case (Inr request)
      show ?thesis
      proof (cases "map_of (links request) ''next''")
        case None
        with q1 Pair Inr show ?thesis by simp
      next
        case (Some link)
        have "quiet w1 (snd (follow_and_extract depth w1 (map_of link ''url'') h))"
          by (rule Suc.IH)
        then have "quiet w (snd (follow_and_extract depth w1 (map_of link ''url'') h))"
          using q1 quiet_trans by blast
        then show ?thesis
          using Pair Inr Some by (auto split: prod.splits sum.splits)
      qed
    qed
  qed
qed

lemma write_order_quiet: "list_all (\<lambda>e. \<not> is_Write e) es \<Longrightarrow> write_order c m (es @ es') = write_order c m es'"
proof (induction es)
  case Nil
  show ?case by simp
next
  case (Cons e es)
  then show ?case by (cases e) auto
qed

lemma content_marker_distinct: "content_path file_name \<noteq> marker_path file_name"
  by (simp add: content_path_def marker_path_def)

lemma quiet_order:
  assumes "quiet w w'"
  shows "(\<exists>es. trace w' = trace w @ es \<and> write_order c m es) \<and> files w' = files w"
proof -
  from assms obtain es where "trace w' = trace w @ es" "list_all (\<lambda>e. \<not> is_Write e) es"
    by (auto simp: quiet_def)
  moreover from this have "write_order c m es"
    using write_order_quiet [of es c m "[]"] by simp
  ultimately show ?thesis using assms by (auto simp: quiet_def)
qed

lemma quiet_then_content:
  assumes "quiet w w3" "trace w' = trace w3 @ Write c body # rest"
  shows "\<exists>es. trace w' = trace w @ es \<and> write_order c m es"
proof -
  from assms(1) obtain es where es: "trace w3 = trace w @ es" "list_all (\<lambda>e. \<not> is_Write e) es"
    by (auto simp: quiet_def)
  have "write_order c m (es @ Write c body # rest)"
    using write_order_quiet [OF es(2)] by simp
  then show ?thesis using es(1) assms(2) by auto
qed

text \<open>
  C2. Within one sync the content file is written before the marker file: in the effects
  the sync adds to the trace, the first write to either of the two paths, if there is
  one, is the write of the content file. The marker is written last, after the content
  write has returned, so whenever the sync ends with an error, also one raised between
  the two writes, the marker file still holds its old content.
\<close>

theorem content_write_precedes_marker_write:
  "(\<exists>es. trace (snd (download_and_write_bib depth w h zotero_url file_name)) = trace w @ es \<and>
         write_order (content_path file_name) (marker_path file_name) es) \<and>
   (fst (download_and_write_bib depth w h zotero_url file_name) \<noteq> Inr () \<longrightarrow>
      files (snd (download_and_write_bib depth w h zotero_url file_name)) (marker_path file_name)
        = files w (marker_path file_name))"
proof -
  let ?c = "content_path file_name" and ?m = "marker_path file_name"
  let ?P = "\<lambda>res. (\<exists>es. trace (snd res) = trace w @ es \<and> write_order ?c ?m es) \<and>
                  (fst res \<noteq> Inr () \<longrightarrow> files (snd res) ?m = files w ?m)"
  have quietP: "\<And>w'. quiet w w' \<Longrightarrow>
      (\<exists>es. trace w' = trace w @ es \<and> write_order ?c ?m es) \<and> files w' ?m = files w ?m"
    using quiet_order by simp
  obtain res1 w1 where f: "fetch_url w (Some zotero_url) h = (res1, w1)"
    by (cases "fetch_url w (Some zotero_url) h") auto
  have q1: "quiet w w1" using quiet_fetch_url [of w "Some zotero_url" h] f by simp
  show ?thesis
  proof (cases res1)
    case (Inl e)
    have "download_and_write_bib depth w h zotero_url file_name = (Inl e, w1)"
      by (simp add: download_and_write_bib_def f Inl)
    with quietP [OF q1] show ?thesis by simp
  next
    case (Inr r)
    have s: "status_code r \<noteq> 403" using fetch_url_not_403 f Inr by blast
    obtain cached w2 where c: "read_cached_version w1 file_name = (cached, w2)"
      by (cases "read_cached_version w1 file_name") auto
    have "quiet w1 w2" using quiet_read_cached_version [of w1 file_name] by (simp add: c)
    with q1 have q2: "quiet w w2" by (rule quiet_trans)
    show ?thesis
    proof (cases "get_latest_version r")
      case (Inl e)
      have "download_and_write_bib depth w h zotero_url file_name = (Inl e, w2)"
        by (simp add: download_and_write_bib_def f \<open>res1 = Inr r\<close> s c Inl)
      with quietP [OF q2] show ?thesis by simp
    next
      case latest: (Inr latest)
      show ?thesis
      proof (cases "cached = latest")
        case True
        let ?w = "emit (LogInfo (''online version '' @ py_str latest
                    @ '' is not different from cache '' @ py_str cached @ ''. Done!'')) w2"
        have d: "download_and_write_bib depth w h zotero_url file_name = (Inr (), ?w)"
          by (simp add: download_and_write_bib_def f Inr s c latest True)
        have "quiet w2 ?w" by (rule quiet_emit) simp
        then have "quiet w ?w" using q2 by (rule quiet_trans [rotated])
        with quietP [of ?w] show ?thesis by (simp add: d)
      next
        case False
        let ?w = "emit (LogInfo (''online version '' @ py_str latest
                    @ '' is different from cache '' @ py_str cached @ ''. Fetching data...'')) w2"
        obtain res3 w3 where p: "follow_and_extract depth ?w (Some zotero_url) h = (res3, w3)"
          by (cases "follow_and_extract depth ?w (Some zotero_url) h") auto
        have "quiet w2 ?w" by (rule quiet_emit) simp
        then have qw: "quiet w ?w" using q2 by (rule quiet_trans [rotated])
        have "quiet ?w w3"
          using quiet_follow_and_extract [of ?w depth "Some zotero_url" h]
          unfolding p snd_conv .
        with qw have q3: "quiet w w3" by (rule quiet_trans)
        show ?thesis
        proof (cases res3)
          case (Inl e)
          have "download_and_write_bib depth w h zotero_url file_name = (Inl e, w3)"
            using p by (simp add: download_and_write_bib_def f Inr s c latest False Inl)
          with quietP [OF q3] show ?thesis by simp
        next
          case body: (Inr body)
          show ?thesis
          proof (cases "locked w3 ?c")
            case True
            have "download_and_write_bib depth w h zotero_url file_name
                    = (Inl PermissionError, w3)"
              using p by (simp add: download_and_write_bib_def f Inr s c latest False body
                            write_file_def True)
            with quietP [OF q3] show ?thesis by simp
          next
            case unlocked: False
            let ?w4 = "emit (LogInfo (file_name @ '' updated''))
                         (emit (Write ?c body) (w3\<lparr>files := (files w3)(?c \<mapsto> body)\<rparr>))"
            have fm: "files ?w4 ?m = files w ?m"
              using q3 content_marker_distinct [of file_name]
              by (auto simp: emit_fields quiet_def)
            have tr: "trace ?w4 = trace w3 @ Write ?c body # [LogInfo (file_name @ '' updated'')]"
              by (simp add: emit_fields)
            show ?thesis
            proof (cases "locked ?w4 ?m")
              case True
              have d: "download_and_write_bib depth w h zotero_url file_name
                      = (Inl PermissionError, ?w4)"
                using True p
                by (simp add: download_and_write_bib_def f Inr s c latest False body
                              write_file_def unlocked)
              show ?thesis
                using quiet_then_content [OF q3 tr, of ?m] fm by (simp add: d)
            next
              case False
              let ?w5 = "emit (LogInfo (''last-modified-version updated to '' @ py_str latest))
                           (emit (Write ?m (py_str latest))
                              (?w4\<lparr>files := (files ?w4)(?m \<mapsto> py_str latest)\<rparr>))"
              have d: "download_and_write_bib depth w h zotero_url file_name = (Inr (), ?w5)"
                using False p
                by (simp add: download_and_write_bib_def f Inr s c latest \<open>cached \<noteq> latest\<close>
                              body write_file_def unlocked)
              have tr5: "trace ?w5 = trace w3 @ Write ?c body #
                           [LogInfo (file_name @ '' updated''), Write ?m (py_str latest),
                            LogInfo (''last-modified-version updated to '' @ py_str latest)]"
                by (simp add: emit_fields)
              show ?thesis
                using quiet_then_content [OF q3 tr5, of ?m] by (simp add: d)
            qed
          qed
        qed
      qed
    qed
  qed
qed

lemma py_int_7: "py_int ''7'' = Some 7"
  by (simp add: py_int_def strip_def is_space_def digits_val_def is_digit_def digit_val_def)

lemma py_int_9: "py_int ''9'' = Some 9"
  by (simp add: py_int_def strip_def is_space_def digits_val_def is_digit_def digit_val_def)

lemmas run_defs =
  download_and_write_bib_def fetch_url_unfold fetch_url_body_Some served_def
  raise_for_status_def ok_page_def read_cached_version_def get_latest_version_def
  write_file_def emit_def sent_def content_path_def marker_path_def Let_def

theorem content_write_precedes_marker_write_witness:
  "fst (download_and_write_bib 1 marker_locked_world [] ''u'' ''zotero.bib'')
     = Inl PermissionError \<and>
   fst (download_and_write_bib 1 marker_locked_world [] ''u'' ''zotero.bib'') \<noteq> Inr () \<and>
   files (snd (download_and_write_bib 1 marker_locked_world [] ''u'' ''zotero.bib''))
     (content_path ''zotero.bib'') = Some ''A'' \<and>
   files (snd (download_and_write_bib 1 marker_locked_world [] ''u'' ''zotero.bib''))
     (marker_path ''zotero.bib'') = Some ''7''"
proof -
  let ?run = "download_and_write_bib 1 marker_locked_world [] ''u'' ''zotero.bib''"
  have a: "fst ?run = Inl PermissionError"
    by (simp add: run_defs marker_locked_world_def py_int_7 py_int_9)
  have c: "files (snd ?run) (content_path ''zotero.bib'') = Some ''A''"
    by (simp add: run_defs marker_locked_world_def py_int_7 py_int_9)
  have ne: "fst ?run \<noteq> Inr ()" using a by simp
  have m: "files (snd ?run) (marker_path ''zotero.bib'')
             = files marker_locked_world (marker_path ''zotero.bib'')"
    using content_write_precedes_marker_write
            [of 1 marker_locked_world "[]" "''u''" "''zotero.bib''", THEN conjunct2] ne
    by blast
  have old: "files marker_locked_world (marker_path ''zotero.bib'') = Some ''7''"
    by (simp add: marker_locked_world_def marker_path_def)
  from a ne c m old show ?thesis by simp
qed

section \<open>Reading the cached version\<close>

lemma py_int_5: "py_int ''5'' = Some 5"
  by (simp add: py_int_def strip_def is_space_def digits_val_def is_digit_def digit_val_def)

text \<open>
  C5, as stated, fails: the cache read parses the first line of the marker file only. A
  marker file of the two lines \<open>5\<close> and \<open>x\<close> does not parse as an integer as a whole,
  yet the cached version read from it is 5, not 0; against a remote at version 5 the
  sync is then a no-op after the single GET of the probe.
\<close>

theorem unparsable_content_counterexample:
  "files two_line_world (marker_path ''zotero.bib'') = Some two_line_marker \<and>
   py_int two_line_marker = None \<and>
   fst (read_cached_version two_line_world ''zotero.bib'') = 5 \<and>
   fst (fetch_url two_line_world (Some ''u'') []) = Inr (ok_page ''5'' None ''A'') \<and>
   get_latest_version (ok_page ''5'' None ''A'') = Inr 5 \<and>
   fst (download_and_write_bib 1 two_line_world [] ''u'' ''zotero.bib'') = Inr () \<and>
   requests (snd (download_and_write_bib 1 two_line_world [] ''u'' ''zotero.bib'')) = 1 \<and>
   files (snd (download_and_write_bib 1 two_line_world [] ''u'' ''zotero.bib''))
     = files two_line_world"
proof -
  let ?page = "ok_page ''5'' None ''A''"
  have f: "files two_line_world (marker_path ''zotero.bib'') = Some two_line_marker"
    by (simp add: two_line_world_def marker_path_def)
  have p: "py_int two_line_marker = None"
    by (simp add: two_line_marker_def py_int_def strip_def is_space_def digits_val_def
                  is_digit_def digit_val_def)
  have rl: "readline two_line_marker = [CHR ''5'', CHR 0x0A]"
    by (simp add: two_line_marker_def)
  have p5: "py_int [CHR ''5'', CHR 0x0A] = Some 5"
    by (simp add: py_int_def strip_def is_space_def digits_val_def is_digit_def digit_val_def)
  have c: "fst (read_cached_version two_line_world ''zotero.bib'') = 5"
    using f by (simp add: read_cached_version_def Let_def rl p5)
  have s: "served two_line_world (requests two_line_world) ''u'' [] = Inr ?page"
    by (simp add: served_def two_line_world_def raise_for_status_def ok_page_def)
  have h1: "fst (fetch_url two_line_world (Some ''u'') []) = Inr ?page"
    by (simp add: fetch_url_first_ok [OF s])
  have h2: "get_latest_version ?page = Inr 5"
    by (simp add: get_latest_version_def ok_page_def py_int_5)
  have rq: "requests (snd (fetch_url two_line_world (Some ''u'') [])) = 1"
    by (simp add: fetch_url_first_ok [OF s] emit_fields sent_fields) (simp add: two_line_world_def)
  note noop = sync_noop [OF h1 h2 c, of 1]
  have d1: "fst (download_and_write_bib 1 two_line_world [] ''u'' ''zotero.bib'') = Inr ()"
    using noop [THEN conjunct1] .
  have d2: "files (snd (download_and_write_bib 1 two_line_world [] ''u'' ''zotero.bib''))
              = files two_line_world"
    using noop [THEN conjunct2, THEN conjunct1] .
  have d3: "requests (snd (download_and_write_bib 1 two_line_world [] ''u'' ''zotero.bib'')) = 1"
    using noop [THEN conjunct2, THEN conjunct2, THEN conjunct1] rq by simp
  from f p c h1 h2 d1 d2 d3 show ?thesis by blast
qed

lemma fetch_url_trace_head:
  "\<exists>es. trace (snd (fetch_url w (Some u) h)) = trace w @ Get u h # es"
  by (auto simp: fetch_url_unfold fetch_url_body_Some emit_fields sent_fields backoff_fields
           split: sum.splits)

lemma quiet_trace: "quiet w w' \<Longrightarrow> \<exists>es. trace w' = trace w @ es"
  by (auto simp: quiet_def)

lemma follow_and_extract_trace_head:
  "\<exists>es. trace (snd (follow_and_extract (Suc depth) w (Some u) h)) = trace w @ Get u h # es"
proof -
  obtain res w1 where f: "fetch_url w (Some u) h = (res, w1)"
    by (cases "fetch_url w (Some u) h") auto
  obtain es1 where t1: "trace w1 = trace w @ Get u h # es1"
    using fetch_url_trace_head [of w u h] by (auto simp: f)
  have ext: "\<And>x. \<exists>es. trace (snd (follow_and_extract depth w1 x h)) = trace w @ Get u h # es"
    using quiet_trace [OF quiet_follow_and_extract [of w1 depth _ h]] t1 by fastforce
  show ?thesis
  proof (cases res)
    case (Inl e)
    then show ?thesis using f t1 by simp
  next
    case (Inr request)
    show ?thesis
    proof (cases "map_of (links request) ''next''")
      case None
      then show ?thesis using f Inr t1 by simp
    next
      case (Some link)
      show ?thesis
        using ext [of "map_of link ''url''"] f Inr Some
        by (auto split: prod.splits sum.splits)
    qed
  qed
qed

text \<open>
  C5, amended. When the marker file is missing, or its first line does not parse as an
  integer, the cached version is 0. Then, whenever the probe succeeds with a latest
  version other than 0, the comparison fails and the full fetch proceeds: right after
  the cache read the sync logs that the versions differ and the paginator sends its GET
  for the resource URL.
\<close>

theorem missing_or_unparsable_first_line:
  assumes "case files w (marker_path file_name) of
             None \<Rightarrow> True
           | Some c \<Rightarrow> py_int (readline c) = None"
  shows "fst (read_cached_version w file_name) = 0 \<and>
         (\<forall>r latest.
            fst (fetch_url w (Some zotero_url) h) = Inr r \<and>
            get_latest_version r = Inr latest \<and> latest \<noteq> 0 \<longrightarrow>
            (\<exists>es. trace (snd (download_and_write_bib (Suc depth) w h zotero_url file_name)) =
                    trace (snd (read_cached_version (snd (fetch_url w (Some zotero_url) h))
                                  file_name))
                    @ LogInfo (''online version '' @ py_str latest
                         @ '' is different from cache '' @ py_str 0 @ ''. Fetching data...'')
                    # Get zotero_url h # es))"
proof -
  have c0: "fst (read_cached_version w file_name) = 0"
    using assms by (auto simp: read_cached_version_def Let_def split: option.splits)
  have full: "\<exists>es. trace (snd (download_and_write_bib (Suc depth) w h zotero_url file_name)) =
                    trace (snd (read_cached_version (snd (fetch_url w (Some zotero_url) h))
                                  file_name))
                    @ LogInfo (''online version '' @ py_str latest
                         @ '' is different from cache '' @ py_str 0 @ ''. Fetching data...'')
                    # Get zotero_url h # es"
    if r: "fst (fetch_url w (Some zotero_url) h) = Inr r"
      and l: "get_latest_version r = Inr latest" and ne: "latest \<noteq> 0"
    for r latest
  proof -
    obtain w1 where f: "fetch_url w (Some zotero_url) h = (Inr r, w1)"
      using r by (cases "fetch_url w (Some zotero_url) h") auto
    have s: "status_code r \<noteq> 403" using fetch_url_not_403 [OF f] .
    have fw1: "files w1 = files w"
      using fetch_url_files [of w "Some zotero_url" h] by (simp add: f)
    obtain w2 where c: "read_cached_version w1 file_name = (0, w2)"
      using read_cached_version_files [OF fw1, of file_name] c0
      by (cases "read_cached_version w1 file_name") auto
    let ?msg = "LogInfo (''online version '' @ py_str latest
                  @ '' is different from cache '' @ py_str 0 @ ''. Fetching data...'')"
    let ?w = "emit ?msg w2"
    obtain res3 w3 where p: "follow_and_extract (Suc depth) ?w (Some zotero_url) h = (res3, w3)"
      by (cases "follow_and_extract (Suc depth) ?w (Some zotero_url) h") auto
    obtain es3 where t3: "trace w3 = trace w2 @ ?msg # Get zotero_url h # es3"
      using follow_and_extract_trace_head [of depth ?w zotero_url h]
      unfolding p snd_conv by (auto simp: emit_fields)
    have goal: "\<exists>es. trace w' = trace w2 @ ?msg # Get zotero_url h # es"
      if "\<exists>es'. trace w' = trace w3 @ es'" for w'
      using that t3 by auto
    have tail: "\<exists>es'. trace (snd (download_and_write_bib (Suc depth) w h zotero_url file_name))
                  = trace w3 @ es'"
      using p ne
      by (auto simp: download_and_write_bib_def f s c l write_file_def emit_fields
               simp del: follow_and_extract.simps split: sum.splits)
    show ?thesis
      using goal [OF tail] by (simp add: f c)
  qed
  from c0 full show ?thesis by blast
qed

theorem missing_or_unparsable_first_line_witness:
  "(case files fresh_world (marker_path ''zotero.bib'') of
      None \<Rightarrow> True
    | Some c \<Rightarrow> py_int (readline c) = None) \<and>
   fst (read_cached_version fresh_world ''zotero.bib'') = 0 \<and>
   files garbled_world (marker_path ''zotero.bib'') = Some (''12'' @ [CHR 0x1F]) \<and>
   py_int (readline (''12'' @ [CHR 0x1F])) = None \<and>
   fst (read_cached_version garbled_world ''zotero.bib'') = 0 \<and>
   fst (fetch_url garbled_world (Some ''u'') []) = Inr (ok_page ''5'' None ''A'') \<and>
   get_latest_version (ok_page ''5'' None ''A'') = Inr 5 \<and>
   (\<exists>es. trace (snd (download_and_write_bib (Suc 0) garbled_world [] ''u'' ''zotero.bib'')) =
           trace (snd (read_cached_version (snd (fetch_url garbled_world (Some ''u'') []))
                         ''zotero.bib''))
           @ LogInfo (''online version '' @ py_str 5
                @ '' is different from cache '' @ py_str 0 @ ''. Fetching data...'')
           # Get ''u'' [] # es)"
proof -
  let ?page = "ok_page ''5'' None ''A''"
  have m0: "case files fresh_world (marker_path ''zotero.bib'') of
              None \<Rightarrow> True
            | Some c \<Rightarrow> py_int (readline c) = None"
    by (simp add: fresh_world_def)
  have z0: "fst (read_cached_version fresh_world ''zotero.bib'') = 0"
    using missing_or_unparsable_first_line [OF m0, of "''u''" "[]" 0, THEN conjunct1] .
  have g: "files garbled_world (marker_path ''zotero.bib'') = Some (''12'' @ [CHR 0x1F])"
    by (simp add: garbled_world_def marker_path_def)
  have p: "py_int (readline (''12'' @ [CHR 0x1F])) = None"
    by (simp add: py_int_def strip_def is_space_def digits_val_def is_digit_def digit_val_def)
  have m: "case files garbled_world (marker_path ''zotero.bib'') of
             None \<Rightarrow> True
           | Some c \<Rightarrow> py_int (readline c) = None"
    using p by (simp add: g)
  have s: "served garbled_world (requests garbled_world) ''u'' [] = Inr ?page"
    by (simp add: served_def garbled_world_def raise_for_status_def ok_page_def)
  have h1: "fst (fetch_url garbled_world (Some ''u'') []) = Inr ?page"
    by (simp add: fetch_url_first_ok [OF s])
  have h2: "get_latest_version ?page = Inr 5"
    by (simp add: get_latest_version_def ok_page_def py_int_5)
  note inst = missing_or_unparsable_first_line [OF m, of "''u''" "[]" 0]
  have z: "fst (read_cached_version garbled_world ''zotero.bib'') = 0"
    using inst [THEN conjunct1] .
  have "fst (fetch_url garbled_world (Some ''u'') []) = Inr ?page \<and>
        get_latest_version ?page = Inr 5 \<and> (5::int) \<noteq> 0"
    using h1 h2 by simp
  then have full: "\<exists>es. trace (snd (download_and_write_bib (Suc 0) garbled_world [] ''u''
                                   ''zotero.bib'')) =
           trace (snd (read_cached_version (snd (fetch_url garbled_world (Some ''u'') []))
                         ''zotero.bib''))
           @ LogInfo (''online version '' @ py_str 5
                @ '' is different from cache '' @ py_str 0 @ ''. Fetching data...'')
           # Get ''u'' [] # es"
    using inst [THEN conjunct2, rule_format, of ?page 5] by blast
  from m0 z0 g p z h1 h2 full show ?thesis by blast
qed

section \<open>Pagination and the full sync\<close>

lemma net_eq_refl: "net_eq w w"
  by (simp add: net_eq_def)

lemma net_eq_emit: "net_eq w (emit e w)"
  by (simp add: net_eq_def emit_def)

lemma net_eq_trans: "net_eq w w1 \<Longrightarrow> net_eq w1 w2 \<Longrightarrow> net_eq w w2"
  by (simp add: net_eq_def)

lemma net_eq_read_cached_version: "net_eq w (snd (read_cached_version w file_name))"
  by (auto simp: net_eq_def read_cached_version_def emit_def Let_def split: option.splits)

lemma served_net_eq: "net_eq w w' \<Longrightarrow> served w' k u h = served w k u h"
  by (simp add: net_eq_def served_def)

lemma fetch_url_net_eq:
  assumes "net_eq w w'"
  shows "fst (fetch_url w' (Some u) h) = fst (fetch_url w (Some u) h) \<and>
         net_eq (snd (fetch_url w (Some u) h)) (snd (fetch_url w' (Some u) h))"
proof -
  have eq: "requests w' = requests w" "server w' = server w" "now w' = now w"
           "took w' = took w" "pause w' = pause w"
    using assms by (simp_all add: net_eq_def)
  have s: "\<And>k. served w' k u h = served w k u h"
    using served_net_eq [OF assms] .
  show ?thesis
    unfolding fetch_url_unfold fetch_url_body_Some
    by (auto simp: s eq emit_fields sent_fields backoff_fields net_eq_def split: sum.splits)
qed

lemma page_chain_net_eq:
  "net_eq w w' \<Longrightarrow> page_chain w' h u ps = page_chain w h u ps"
proof (induction ps arbitrary: w w' u)
  case Nil
  show ?case by simp
next
  case (Cons p ps)
  note fe = fetch_url_net_eq [OF Cons.prems, of u h]
  show ?case
  proof (cases ps)
    case Nil
    then show ?thesis using fe by simp
  next
    case (Cons q qs)
    have "\<And>u'. page_chain (snd (fetch_url w' (Some u) h)) h u' ps
              = page_chain (snd (fetch_url w (Some u) h)) h u' ps"
      using Cons.IH fe by blast
    then show ?thesis using fe Cons by (simp split: option.splits)
  qed
qed

lemma follow_chain:
  "page_chain w h u ps \<Longrightarrow> length ps \<le> depth \<Longrightarrow>
   fst (follow_and_extract depth w (Some u) h) = Inr (concat (map resp_text ps))"
proof (induction ps arbitrary: w u depth)
  case Nil
  then show ?case by simp
next
  case (Cons p ps)
  from Cons.prems(2) obtain d where d: "depth = Suc d" "length ps \<le> d"
    by (cases depth) auto
  obtain x w1 where f: "fetch_url w (Some u) h = (x, w1)"
    by (cases "fetch_url w (Some u) h") auto
  show ?case
  proof (cases ps)
    case Nil
    with Cons.prems(1) have "x = Inr p" "map_of (links p) ''next'' = None"
      using f by auto
    then show ?thesis using f d Nil by simp
  next
    case (Cons q qs)
    from Cons.prems(1) Cons f obtain link u' where
      x: "x = Inr p" and l: "map_of (links p) ''next'' = Some link"
      and u': "map_of link ''url'' = Some u'" and rest: "page_chain w1 h u' ps"
      by (auto split: option.splits)
    have "fst (follow_and_extract d w1 (Some u') h) = Inr (concat (map resp_text ps))"
      using Cons.IH [OF rest d(2)] .
    then show ?thesis
      using f x l u' d(1) by (auto split: prod.splits sum.splits)
  qed
qed

lemma sync_full_chain:
  assumes probe: "fst (fetch_url w (Some zotero_url) h) = Inr r"
      and latest: "get_latest_version r = Inr latest"
      and differ: "fst (read_cached_version w file_name) \<noteq> latest"
      and chain: "page_chain (snd (fetch_url w (Some zotero_url) h)) h zotero_url pages"
      and depth: "length pages \<le> depth"
      and cfree: "\<not> locked w (content_path file_name)"
      and mfree: "\<not> locked w (marker_path file_name)"
  shows "fst (download_and_write_bib depth w h zotero_url file_name) = Inr () \<and>
         files (snd (download_and_write_bib depth w h zotero_url file_name))
           (content_path file_name) = Some (concat (map resp_text pages)) \<and>
         files (snd (download_and_write_bib depth w h zotero_url file_name))
           (marker_path file_name) = Some (py_str latest)"
proof -
  obtain w1 where f: "fetch_url w (Some zotero_url) h = (Inr r, w1)"
    using probe by (cases "fetch_url w (Some zotero_url) h") auto
  have s: "status_code r \<noteq> 403" using fetch_url_not_403 [OF f] .
  have q1: "quiet w w1" using quiet_fetch_url [of w "Some zotero_url" h] by (simp add: f)
  obtain cached w2 where c: "read_cached_version w1 file_name = (cached, w2)"
    by (cases "read_cached_version w1 file_name") auto
  have fw1: "files w1 = files w" using q1 by (simp add: quiet_def)
  have ne: "cached \<noteq> latest"
    using read_cached_version_files [OF fw1, of file_name] differ by (simp add: c)
  have q12: "quiet w1 w2" using quiet_read_cached_version [of w1 file_name] by (simp add: c)
  have n12: "net_eq w1 w2" using net_eq_read_cached_version [of w1 file_name] by (simp add: c)
  let ?w = "emit (LogInfo (''online version '' @ py_str latest
              @ '' is different from cache '' @ py_str cached @ ''. Fetching data...'')) w2"
  have "quiet w2 ?w" by (rule quiet_emit) simp
  with q1 q12 have qw: "quiet w ?w" using quiet_trans by blast
  have "net_eq w1 ?w" using n12 net_eq_emit net_eq_trans by blast
  then have ch: "page_chain ?w h zotero_url pages"
    using page_chain_net_eq chain by (simp add: f)
  obtain res3 w3 where p: "follow_and_extract depth ?w (Some zotero_url) h = (res3, w3)"
    by (cases "follow_and_extract depth ?w (Some zotero_url) h") auto
  have body: "res3 = Inr (concat (map resp_text pages))"
    using follow_chain [OF ch depth] unfolding p fst_conv .
  have "quiet ?w w3"
    using quiet_follow_and_extract [of ?w depth "Some zotero_url" h] unfolding p snd_conv .
  with qw have q3: "quiet w w3" by (rule quiet_trans)
  then have l3: "locked w3 = locked w" by (simp add: quiet_def)
  show ?thesis
    using p content_marker_distinct [of file_name]
    by (simp add: download_and_write_bib_def f s c latest ne body write_file_def l3 cfree mfree
                  emit_fields)
qed

text \<open>
  C3. Let the probe succeed with latest version \<open>latest\<close>, different from the cached
  one, and let the fetches that follow it run over a linked chain of pages: starting at
  the resource URL each page is fetched, links to the next, and the last has no next
  link. When the recursion depth allows as many nested calls as there are pages and both
  files can be written, the sync succeeds, the content file holds the bodies of the pages
  concatenated in link order with nothing between them, and the marker file holds the
  text of \<open>latest\<close>.
\<close>

theorem full_sync_concatenates_pages:
  assumes "fst (fetch_url w (Some zotero_url) h) = Inr r"
      and "get_latest_version r = Inr latest"
      and "fst (read_cached_version w file_name) \<noteq> latest"
      and "page_chain (snd (fetch_url w (Some zotero_url) h)) h zotero_url pages"
      and "length pages \<le> depth"
      and "\<not> locked w (content_path file_name)"
      and "\<not> locked w (marker_path file_name)"
  shows "fst (download_and_write_bib depth w h zotero_url file_name) = Inr () \<and>
         files (snd (download_and_write_bib depth w h zotero_url file_name))
           (content_path file_name) = Some (concat (map resp_text pages)) \<and>
         files (snd (download_and_write_bib depth w h zotero_url file_name))
           (marker_path file_name) = Some (py_str latest)"
  using assms by (rule sync_full_chain)

lemma fetch_url_server: "server (snd (fetch_url w url h)) = server w"
  using quiet_fetch_url [of w url h] by (simp add: quiet_def)

lemma fetch_url_served_ok:
  "served w (requests w) u h = Inr p \<Longrightarrow> fst (fetch_url w (Some u) h) = Inr p"
  by (simp add: fetch_url_first_ok)

lemma py_str_9: "py_str 9 = ''9''"
  by code_simp

lemma three_page_served:
  assumes "server w = server three_page_world"
  shows "served w k ''p1'' [] = Inr (ok_page ''9'' (Some ''p2'') ''A'')"
    and "served w k ''p2'' [] = Inr (ok_page ''9'' (Some ''p3'') ''B'')"
    and "served w k ''p3'' [] = Inr (ok_page ''9'' None ''C'')"
  using assms by (simp_all add: served_def three_page_world_def raise_for_status_def ok_page_def)

lemma three_page_chain:
  assumes "server w = server three_page_world"
  shows "page_chain w [] ''p1''
           [ok_page ''9'' (Some ''p2'') ''A'', ok_page ''9'' (Some ''p3'') ''B'',
            ok_page ''9'' None ''C'']"
proof -
  let ?A = "ok_page ''9'' (Some ''p2'') ''A''"
  let ?B = "ok_page ''9'' (Some ''p3'') ''B''"
  let ?C = "ok_page ''9'' None ''C''"
  let ?w1 = "snd (fetch_url w (Some ''p1'') [])"
  let ?w2 = "snd (fetch_url ?w1 (Some ''p2'') [])"
  have s1: "server ?w1 = server three_page_world" using assms by (simp add: fetch_url_server)
  have s2: "server ?w2 = server three_page_world" using s1 by (simp add: fetch_url_server)
  have fA: "fst (fetch_url w (Some ''p1'') []) = Inr ?A"
    by (rule fetch_url_served_ok) (rule three_page_served [OF assms])
  have fB: "fst (fetch_url ?w1 (Some ''p2'') []) = Inr ?B"
    by (rule fetch_url_served_ok) (rule three_page_served [OF s1])
  have fC: "fst (fetch_url ?w2 (Some ''p3'') []) = Inr ?C"
    by (rule fetch_url_served_ok) (rule three_page_served [OF s2])
  have lA: "map_of (links ?A) ''next'' = Some [(''url'', ''p2''), (''rel'', ''next'')]"
    by (simp add: ok_page_def)
  have lB: "map_of (links ?B) ''next'' = Some [(''url'', ''p3''), (''rel'', ''next'')]"
    by (simp add: ok_page_def)
  have lC: "map_of (links ?C) ''next'' = None"
    by (simp add: ok_page_def)
  show ?thesis by (simp add: fA fB fC lA lB lC)
qed

theorem full_sync_concatenates_pages_witness:
  "fst (fetch_url three_page_world (Some ''p1'') []) = Inr (ok_page ''9'' (Some ''p2'') ''A'') \<and>
   get_latest_version (ok_page ''9'' (Some ''p2'') ''A'') = Inr 9 \<and>
   fst (read_cached_version three_page_world ''zotero.bib'') = 7 \<and>
   page_chain (snd (fetch_url three_page_world (Some ''p1'') [])) [] ''p1''
     [ok_page ''9'' (Some ''p2'') ''A'', ok_page ''9'' (Some ''p3'') ''B'',
      ok_page ''9'' None ''C''] \<and>
   fst (download_and_write_bib 3 three_page_world [] ''p1'' ''zotero.bib'') = Inr () \<and>
   files (snd (download_and_write_bib 3 three_page_world [] ''p1'' ''zotero.bib''))
     (content_path ''zotero.bib'') = Some ''ABC'' \<and>
   files (snd (download_and_write_bib 3 three_page_world [] ''p1'' ''zotero.bib''))
     (marker_path ''zotero.bib'') = Some ''9''"
proof -
  let ?A = "ok_page ''9'' (Some ''p2'') ''A''"
  let ?B = "ok_page ''9'' (Some ''p3'') ''B''"
  let ?C = "ok_page ''9'' None ''C''"
  have h1: "fst (fetch_url three_page_world (Some ''p1'') []) = Inr ?A"
    by (rule fetch_url_served_ok) (rule three_page_served [OF refl])
  have h2: "get_latest_version ?A = Inr 9"
    by (simp add: get_latest_version_def ok_page_def py_int_9)
  have c7: "fst (read_cached_version three_page_world ''zotero.bib'') = 7"
    by (simp add: read_cached_version_def three_page_world_def marker_path_def py_int_7 Let_def)
  have h3: "fst (read_cached_version three_page_world ''zotero.bib'') \<noteq> 9"
    by (simp add: c7)
  have h4: "page_chain (snd (fetch_url three_page_world (Some ''p1'') [])) [] ''p1'' [?A, ?B, ?C]"
    by (rule three_page_chain) (rule fetch_url_server)
  have h5: "length [?A, ?B, ?C] \<le> 3" by simp
  have h6: "\<not> locked three_page_world (content_path ''zotero.bib'')"
    by (simp add: three_page_world_def)
  have h7: "\<not> locked three_page_world (marker_path ''zotero.bib'')"
    by (simp add: three_page_world_def)
  note inst = full_sync_concatenates_pages [OF h1 h2 h3 h4 h5 h6 h7]
  have body: "concat (map resp_text [?A, ?B, ?C]) = ''ABC''" by (simp add: ok_page_def)
  have a: "fst (download_and_write_bib 3 three_page_world [] ''p1'' ''zotero.bib'') = Inr ()"
    using inst [THEN conjunct1] .
  have b: "files (snd (download_and_write_bib 3 three_page_world [] ''p1'' ''zotero.bib''))
             (content_path ''zotero.bib'') = Some ''ABC''"
    using inst [THEN conjunct2, THEN conjunct1] unfolding body .
  have c: "files (snd (download_and_write_bib 3 three_page_world [] ''p1'' ''zotero.bib''))
             (marker_path ''zotero.bib'') = Some ''9''"
    using inst [THEN conjunct2, THEN conjunct2] unfolding py_str_9 .
  from h1 h2 c7 h4 a b c show ?thesis by blast
qed

section \<open>Running the sync twice\<close>

lemma read_after_marker_write:
  "files w' (marker_path file_name) = Some (py_str n) \<Longrightarrow>
   fst (read_cached_version w' file_name) = n"
  by (simp add: read_cached_version_def Let_def readline_py_str py_int_py_str)

lemma sync_success_marker:
  assumes ok: "fst (download_and_write_bib depth w h zotero_url file_name) = Inr ()"
      and probe: "fst (fetch_url w (Some zotero_url) h) = Inr r"
  shows "\<exists>latest. get_latest_version r = Inr latest \<and>
           fst (read_cached_version (snd (download_and_write_bib depth w h zotero_url file_name))
                  file_name) = latest"
proof -
  obtain w1 where f: "fetch_url w (Some zotero_url) h = (Inr r, w1)"
    using probe by (cases "fetch_url w (Some zotero_url) h") auto
  have s: "status_code r \<noteq> 403" using fetch_url_not_403 [OF f] .
  obtain cached w2 where c: "read_cached_version w1 file_name = (cached, w2)"
    by (cases "read_cached_version w1 file_name") auto
  have fw2: "files w2 = files w1"
    using quiet_read_cached_version [of w1 file_name] by (simp add: c quiet_def)
  show ?thesis
  proof (cases "get_latest_version r")
    case (Inl e)
    have "download_and_write_bib depth w h zotero_url file_name = (Inl e, w2)"
      by (simp add: download_and_write_bib_def f s c Inl)
    with ok show ?thesis by simp
  next
    case latest: (Inr latest)
    show ?thesis
    proof (cases "cached = latest")
      case True
      let ?w = "emit (LogInfo (''online version '' @ py_str latest
                  @ '' is not different from cache '' @ py_str cached @ ''. Done!'')) w2"
      have d: "download_and_write_bib depth w h zotero_url file_name = (Inr (), ?w)"
        by (simp add: download_and_write_bib_def f s c latest True)
      have "files ?w = files w1" using fw2 by (simp add: emit_fields)
      then have "fst (read_cached_version ?w file_name) = cached"
        using read_cached_version_files [of ?w w1 file_name] by (simp add: c)
      then show ?thesis using latest True by (simp add: d)
    next
      case False
      let ?w = "emit (LogInfo (''online version '' @ py_str latest
                  @ '' is different from cache '' @ py_str cached @ ''. Fetching data...'')) w2"
      obtain res3 w3 where p: "follow_and_extract depth ?w (Some zotero_url) h = (res3, w3)"
        by (cases "follow_and_extract depth ?w (Some zotero_url) h") auto
      have "files (snd (download_and_write_bib depth w h zotero_url file_name))
              (marker_path file_name) = Some (py_str latest)"
        using p ok
        by (auto simp: download_and_write_bib_def f s c latest False write_file_def emit_fields
                 split: sum.splits if_splits)
      then show ?thesis using latest read_after_marker_write by blast
    qed
  qed
qed

text \<open>
  C7. Run the sync of a resource, successfully, and run it again in the world the first
  run left. When the remote has not changed in between, that is, the probe of the second
  run shows the version the probe of the first run showed, the second run is a no-op: it
  leaves every file as the first run left it, sends no GET beyond those of its probe, and
  after the probe its trace holds neither a GET nor a write.
\<close>

theorem second_run_is_noop:
  assumes "fst (download_and_write_bib depth w h zotero_url file_name) = Inr ()"
      and "fst (fetch_url w (Some zotero_url) h) = Inr r1"
      and "fst (fetch_url (snd (download_and_write_bib depth w h zotero_url file_name))
                 (Some zotero_url) h) = Inr r2"
      and "get_latest_version r2 = get_latest_version r1"
  shows "fst (download_and_write_bib depth'
                (snd (download_and_write_bib depth w h zotero_url file_name))
                h zotero_url file_name) = Inr () \<and>
         files (snd (download_and_write_bib depth'
                       (snd (download_and_write_bib depth w h zotero_url file_name))
                       h zotero_url file_name))
           = files (snd (download_and_write_bib depth w h zotero_url file_name)) \<and>
         requests (snd (download_and_write_bib depth'
                          (snd (download_and_write_bib depth w h zotero_url file_name))
                          h zotero_url file_name))
           = requests (snd (fetch_url (snd (download_and_write_bib depth w h zotero_url file_name))
                              (Some zotero_url) h)) \<and>
         (\<exists>es. trace (snd (download_and_write_bib depth'
                             (snd (download_and_write_bib depth w h zotero_url file_name))
                             h zotero_url file_name))
                 = trace (snd (fetch_url (snd (download_and_write_bib depth w h zotero_url
                                               file_name))
                                 (Some zotero_url) h)) @ es \<and>
               list_all (\<lambda>e. \<not> is_Write e \<and> \<not> is_Get e) es)"
proof -
  obtain latest where l1: "get_latest_version r1 = Inr latest"
    and c: "fst (read_cached_version (snd (download_and_write_bib depth w h zotero_url file_name))
                   file_name) = latest"
    using sync_success_marker [OF assms(1) assms(2)] by blast
  have l2: "get_latest_version r2 = Inr latest" using assms(4) l1 by simp
  show ?thesis by (rule sync_noop [OF assms(3) l2 c])
qed

lemma read_cached_version_server:
  "server (snd (read_cached_version w file_name)) = server w"
  using quiet_read_cached_version [of w file_name] by (simp add: quiet_def)

lemma follow_and_extract_server:
  "server (snd (follow_and_extract depth w url h)) = server w"
  using quiet_follow_and_extract [of w depth url h] by (simp add: quiet_def)

lemma sync_server:
  "server (snd (download_and_write_bib depth w h zotero_url file_name)) = server w"
proof -
  obtain x w1 where f: "fetch_url w (Some zotero_url) h = (x, w1)"
    by (cases "fetch_url w (Some zotero_url) h") auto
  have s1: "server w1 = server w" using fetch_url_server [of w "Some zotero_url" h] by (simp add: f)
  obtain cached w2 where c: "read_cached_version w1 file_name = (cached, w2)"
    by (cases "read_cached_version w1 file_name") auto
  have s2: "server w2 = server w"
    using read_cached_version_server [of w1 file_name] s1 by (simp add: c)
  have s3: "\<And>msg y w3. follow_and_extract depth (emit msg w2) (Some zotero_url) h = (y, w3)
              \<Longrightarrow> server w3 = server w"
    using follow_and_extract_server [of depth "emit _ w2" "Some zotero_url" h] s2
    by (metis emit_fields(1) snd_conv)
  show ?thesis
    using s1 s2 s3
    by (auto simp: download_and_write_bib_def f c write_file_def emit_fields
             split: sum.splits prod.splits)
qed

lemma three_page_first_run:
  "fst (download_and_write_bib 3 three_page_world [] ''p1'' ''zotero.bib'') = Inr () \<and>
   files (snd (download_and_write_bib 3 three_page_world [] ''p1'' ''zotero.bib''))
     (content_path ''zotero.bib'') = Some ''ABC''"
proof -
  let ?A = "ok_page ''9'' (Some ''p2'') ''A''"
  let ?B = "ok_page ''9'' (Some ''p3'') ''B''"
  let ?C = "ok_page ''9'' None ''C''"
  have h1: "fst (fetch_url three_page_world (Some ''p1'') []) = Inr ?A"
    by (rule fetch_url_served_ok) (rule three_page_served [OF refl])
  have h2: "get_latest_version ?A = Inr 9"
    by (simp add: get_latest_version_def ok_page_def py_int_9)
  have h3: "fst (read_cached_version three_page_world ''zotero.bib'') \<noteq> 9"
    by (simp add: read_cached_version_def three_page_world_def marker_path_def py_int_7 Let_def)
  have h4: "page_chain (snd (fetch_url three_page_world (Some ''p1'') [])) [] ''p1'' [?A, ?B, ?C]"
    by (rule three_page_chain) (rule fetch_url_server)
  have h5: "length [?A, ?B, ?C] \<le> 3" by simp
  have h6: "\<not> locked three_page_world (content_path ''zotero.bib'')"
    by (simp add: three_page_world_def)
  have h7: "\<not> locked three_page_world (marker_path ''zotero.bib'')"
    by (simp add: three_page_world_def)
  note run = sync_full_chain [OF h1 h2 h3 h4 h5 h6 h7]
  have body: "concat (map resp_text [?A, ?B, ?C]) = ''ABC''" by (simp add: ok_page_def)
  show ?thesis
    using run [THEN conjunct1] run [THEN conjunct2, THEN conjunct1] unfolding body by blast
qed

theorem second_run_is_noop_witness:
  "fst (download_and_write_bib 3 three_page_world [] ''p1'' ''zotero.bib'') = Inr () \<and>
   fst (fetch_url three_page_world (Some ''p1'') []) = Inr (ok_page ''9'' (Some ''p2'') ''A'') \<and>
   fst (fetch_url (snd (download_and_write_bib 3 three_page_world [] ''p1'' ''zotero.bib''))
          (Some ''p1'') []) = Inr (ok_page ''9'' (Some ''p2'') ''A'') \<and>
   fst (download_and_write_bib 3
          (snd (download_and_write_bib 3 three_page_world [] ''p1'' ''zotero.bib''))
          [] ''p1'' ''zotero.bib'') = Inr () \<and>
   files (snd (download_and_write_bib 3
                 (snd (download_and_write_bib 3 three_page_world [] ''p1'' ''zotero.bib''))
                 [] ''p1'' ''zotero.bib''))
     = files (snd (download_and_write_bib 3 three_page_world [] ''p1'' ''zotero.bib'')) \<and>
   files (snd (download_and_write_bib 3
                 (snd (download_and_write_bib 3 three_page_world [] ''p1'' ''zotero.bib''))
                 [] ''p1'' ''zotero.bib''))
     (content_path ''zotero.bib'') = Some ''ABC''"
proof -
  let ?A = "ok_page ''9'' (Some ''p2'') ''A''"
  let ?w1 = "snd (download_and_write_bib 3 three_page_world [] ''p1'' ''zotero.bib'')"
  have a1: "fst (download_and_write_bib 3 three_page_world [] ''p1'' ''zotero.bib'') = Inr ()"
    using three_page_first_run [THEN conjunct1] .
  have abc: "files ?w1 (content_path ''zotero.bib'') = Some ''ABC''"
    using three_page_first_run [THEN conjunct2] .
  have a2: "fst (fetch_url three_page_world (Some ''p1'') []) = Inr ?A"
    by (rule fetch_url_served_ok) (rule three_page_served [OF refl])
  have a3: "fst (fetch_url ?w1 (Some ''p1'') []) = Inr ?A"
    by (rule fetch_url_served_ok) (rule three_page_served [OF sync_server])
  have a4: "get_latest_version ?A = get_latest_version ?A" by (rule refl)
  note inst = second_run_is_noop [OF a1 a2 a3 a4, of 3]
  have b: "fst (download_and_write_bib 3 ?w1 [] ''p1'' ''zotero.bib'') = Inr ()"
    using inst [THEN conjunct1] .
  have c: "files (snd (download_and_write_bib 3 ?w1 [] ''p1'' ''zotero.bib'')) = files ?w1"
    using inst [THEN conjunct2, THEN conjunct1] .
  have d: "files (snd (download_and_write_bib 3 ?w1 [] ''p1'' ''zotero.bib''))
             (content_path ''zotero.bib'') = Some ''ABC''"
    using abc by (simp only: c)
  from a1 a2 a3 b c d show ?thesis by blast
qed

end
